theory Spec2Isabelle
  imports Complex_Main "HOL-Library.AList"
begin

section \<open>The process-based worker of jest-worker (ChildProcessWorker.ts)\<close>

text \<open>
  The class keeps one child process, forwards one request at a time to it, respawns it
  when it crashes, restarts it when its idle memory exceeds a limit, and retires it on an
  out-of-memory crash. The object is a record; every method is a function from the
  record to an outcome that carries the record as the method left it. Everything the
  methods do to the outside (forking, signals, messages on the channel, calls of the
  caller's callbacks, console output) is appended to the field \<open>trace\<close>, in the order
  of the source statements.
\<close>

subsection \<open>Values\<close>

text \<open>
  Modelled from the spec: the enumeration \<open>WorkerStates\<close> of \<open>../types\<close>, which is
  not among the sources. The six members are the ones the class names.
\<close>

datatype WorkerStates = STARTING | OK | OUT_OF_MEMORY | RESTARTING | SHUTTING_DOWN | SHUT_DOWN

datatype signal = SIGTERM | SIGKILL

text \<open>
  Modelled from the spec: the outbound messages of \<open>../types\<close>
  (\<open>Initialize(shouldSpecializeLoad, workerTaskPath, setupArgs)\<close>,
  \<open>Call(requestPayload)\<close>, \<open>RequestMemoryUsage()\<close>). A \<open>ChildMessage\<close> is an array in
  the source, so it is never falsy.
\<close>

datatype ChildMessage =
    CHILD_MESSAGE_INITIALIZE bool string "string list"
  | CHILD_MESSAGE_CALL string
  | CHILD_MESSAGE_MEM_USAGE

text \<open>
  A value that travels as the fifth component of a client error: \<open>null\<close>, a primitive,
  or an object with its enumerable properties in order.
\<close>

datatype jsval = VNull | VPrim string | VObj "(string \<times> string) list"

text \<open>
  Modelled from the spec: the inbound messages of \<open>../types\<close>
  (\<open>Success(result)\<close>, \<open>ClientError(typeName, message, stack, extraProperties)\<close>,
  \<open>SetupError(typeName, message, stack)\<close>, \<open>Custom(payload)\<close>,
  \<open>MemoryUsageReport(bytes)\<close>). The numeric values of the five tags are not in the
  sources; \<open>PARENT_MESSAGE_UNKNOWN t\<close> is a message whose first component \<open>t\<close> is none
  of the five.
\<close>

datatype ParentMessage =
    PARENT_MESSAGE_OK string
  | PARENT_MESSAGE_CLIENT_ERROR string string string jsval
  | PARENT_MESSAGE_SETUP_ERROR string string string
  | PARENT_MESSAGE_CUSTOM string
  | PARENT_MESSAGE_MEM_USAGE nat
  | PARENT_MESSAGE_UNKNOWN string


text \<open>
  An error object: the constructor that built it and its properties. The stack that
  \<open>new Error\<close> generates is not determined by the source; it is the fixed text
  \<open>generatedStack\<close>.
\<close>

record js_error =
  ctor :: string
  props :: "(string \<times> string) list"

definition generatedStack :: string where
  "generatedStack = ''<stack>''"

definition newError :: "string \<Rightarrow> string \<Rightarrow> js_error" where
  "newError c msg = \<lparr>ctor = c, props = [(''message'', msg), (''stack'', generatedStack)]\<rparr>"

definition setProp :: "string \<Rightarrow> string \<Rightarrow> js_error \<Rightarrow> js_error" where
  "setProp k v e = e\<lparr>props := AList.update k v (props e)\<rparr>"

text \<open>The first argument of the completion callback: an error object, or a raw value.\<close>

datatype errarg = Err js_error | Raw jsval

text \<open>
  What a \<open>throw\<close> throws: a \<open>TypeError\<close> with its message, or an error of another
  constructor, named, with its message.
\<close>

datatype js_exception = TypeError string | Thrown string string

text \<open>
  What \<open>new Ctor(message)\<close> does for a function \<open>Ctor\<close> of the global object: it throws, or
  it returns an object. The object comes with what its properties refuse: an assignment
  \<open>object[key] = value\<close> in strict code sets the property or throws (a read-only index of
  a \<open>String\<close> object, the \<open>length\<close> of a typed array).
\<close>

datatype construction =
    Builds js_error "string \<Rightarrow> string \<Rightarrow> js_exception option"
  | Raises js_exception

type_synonym globals = "(string \<times> (string \<Rightarrow> construction)) list"

datatype promise = Pending | Resolved nat | Rejected string

datatype event =
    Fork nat nat
  | Kill nat signal
  | Send nat ChildMessage
  | CallOnProcessStart nat
  | CallOnProcessEnd nat errarg "string option" "ChildMessage option"
  | CallOnCustomMessage nat string
  | ResolveWorkerReady
  | Shutdown
  | ConsoleWarn string
  | ConsoleError string

text \<open>
  \<open>Fork h i\<close>: \<open>fork\<close> returned the handle \<open>h\<close>, with \<open>JEST_WORKER_ID = i\<close>.
  \<open>Kill h s\<close> and \<open>Send h m\<close>: the calls \<open>kill(s)\<close> and \<open>send(m)\<close> on the handle \<open>h\<close>.
  \<open>CallOnProcessEnd cb e r p\<close>: the caller's completion callback \<open>cb\<close> is called with
  \<open>(e, r)\<close>, at a moment where the pending-request field holds \<open>p\<close>. The caller's callbacks
  are opaque: they are identified by a number, they return normally, and what they do in
  turn is not part of the model.
\<close>

subsection \<open>The object\<close>

record WorkerOptions =
  maxRetries :: nat
  idleMemoryLimit :: "rat option"
  workerId :: nat
  workerPath :: string
  setupArgs :: "string list"
  silent :: "bool option"

text \<open>
  Numbers: \<open>idleMemoryLimit\<close> is a JavaScript number, a double; it is modelled by the
  rational it denotes, and the product \<open>totalmem() * limit\<close> is rounded as doubles are
  (\<open>multiply\<close> below). The memory usage a child reports and \<open>totalmem()\<close> are byte
  counts, natural numbers.
  \<open>retries\<close> is \<open>None\<close> while the field is \<open>undefined\<close> or \<open>NaN\<close>: the class declares it
  without a value, \<open>++\<close> turns \<open>undefined\<close> into \<open>NaN\<close> and keeps \<open>NaN\<close>, and no
  comparison with \<open>NaN\<close> holds.

  The fields after \<open>resolveWorkerReady\<close> are what the object acts on: the connected flag
  of every handle \<open>fork\<close> has returned (a handle is its index), the promises created by
  \<open>getMemoryUsage\<close>, the pending timers \<open>(id, due time, handle)\<close> and the clock, the total
  memory, the functions of the global object other than \<open>Error\<close> (each name with what
  \<open>new\<close> makes of it), and the trace.

  Modelled from the spec: \<open>state\<close>, \<open>workerReadyPromise\<close>, \<open>resolveWorkerReady\<close> and the
  exit promise belong to \<open>WorkerAbstract\<close>, which is not among the sources. The two
  readiness fields say whether the field is defined. \<open>exitResolved\<close> says whether the exit
  promise is resolved and \<open>exitThen\<close> holds the timers that \<open>forceExit\<close> asked to be cleared
  once it is.
\<close>

record worker =
  state :: WorkerStates
  options :: WorkerOptions
  child :: "nat option"
  request :: "ChildMessage option"
  retries :: "nat option"
  onProcessEnd :: "nat option"
  onCustomMessage :: "nat option"
  stdout :: "nat list option"
  stderr :: "nat list option"
  stderrBuffer :: "string list"
  memoryUsagePromise :: "nat option"
  resolveMemoryUsage :: "nat option"
  childIdleMemoryUsage :: "nat option"
  childIdleMemoryUsageLimit :: "rat option"
  memoryUsageCheck :: bool
  workerReadyPromise :: bool
  resolveWorkerReady :: bool
  exitResolved :: bool
  exitThen :: "nat list"
  children :: "bool list"
  promises :: "promise list"
  timers :: "(nat \<times> nat \<times> nat) list"
  nextTimer :: nat
  now :: nat
  totalmem :: nat
  globalFunctions :: globals
  trace :: "event list"

text \<open>
  A method returns a value and leaves the object in a state, or throws and leaves the
  object in the state it had reached: an exception does not undo assignments.
\<close>

datatype 'r outcome = Returned 'r worker | Threw js_exception worker

definition andThen :: "'a outcome \<Rightarrow> ('a \<Rightarrow> worker \<Rightarrow> 'b outcome) \<Rightarrow> 'b outcome" where
  "andThen m f = (case m of Returned r w \<Rightarrow> f r w | Threw e w \<Rightarrow> Threw e w)"

definition SIGNAL_BASE_EXIT_CODE :: int where
  "SIGNAL_BASE_EXIT_CODE = 128"

definition SIGKILL_EXIT_CODE :: int where
  "SIGKILL_EXIT_CODE = SIGNAL_BASE_EXIT_CODE + 9"

definition SIGTERM_EXIT_CODE :: int where
  "SIGTERM_EXIT_CODE = SIGNAL_BASE_EXIT_CODE + 15"

definition SIGKILL_DELAY :: nat where
  "SIGKILL_DELAY = 500"

subsection \<open>The primitives the class calls\<close>

definition log :: "event \<Rightarrow> worker \<Rightarrow> worker" where
  "log e w = w\<lparr>trace := trace w @ [e]\<rparr>"

definition kill :: "nat \<Rightarrow> signal \<Rightarrow> worker \<Rightarrow> worker" where
  "kill h s w = log (Kill h s) w"

definition isConnected :: "nat \<Rightarrow> worker \<Rightarrow> bool" where
  "isConnected h w = (h < length (children w) \<and> children w ! h)"

definition undefinedChild :: js_exception where
  "undefinedChild = TypeError ''Cannot read properties of undefined''"

definition childSend :: "ChildMessage \<Rightarrow> worker \<Rightarrow> unit outcome" where
  "childSend m w = (case child w of
       None \<Rightarrow> Threw undefinedChild w
     | Some h \<Rightarrow> Returned () (log (Send h m) w))"

definition fork :: "worker \<Rightarrow> worker" where
  "fork w = (let h = length (children w)
     in log (Fork h (workerId (options w) + 1))
          (w\<lparr>children := children w @ [True], child := Some h\<rparr>))"

definition clearTimeout :: "nat \<Rightarrow> worker \<Rightarrow> worker" where
  "clearTimeout t w = w\<lparr>timers := filter (\<lambda>(i, due, h). i \<noteq> t) (timers w)\<rparr>"

definition settle :: "nat \<Rightarrow> promise \<Rightarrow> worker \<Rightarrow> worker" where
  "settle p v w =
     (if p < length (promises w) \<and> promises w ! p = Pending
      then w\<lparr>promises := (promises w)[p := v]\<rparr> else w)"

fun includesStr :: "string \<Rightarrow> string \<Rightarrow> bool" where
  "includesStr [] sub = (sub = [])"
| "includesStr (c # cs) sub = (take (length sub) (c # cs) = sub \<or> includesStr cs sub)"

definition digit :: "nat \<Rightarrow> char" where
  "digit n = ''0123456789'' ! (n mod 10)"

function showNat :: "nat \<Rightarrow> string" where
  "showNat n = (if n < 10 then [digit n] else showNat (n div 10) @ [digit n])"
  by pat_completeness auto
termination
  by (relation "measure id") auto

definition truthyLimit :: "rat option \<Rightarrow> bool" where
  "truthyLimit l = (case l of None \<Rightarrow> False | Some x \<Rightarrow> x \<noteq> 0)"

subsection \<open>Numbers\<close>

text \<open>
  \<open>binary64 x\<close> is the double nearest to the rational \<open>x\<close>, ties to the even significand:
  53 binary digits from the leading one, in steps of \<open>2^-1074\<close> below \<open>2^-1022\<close>.
  \<open>exponent x\<close> is the integer \<open>e\<close> with \<open>2^e \<le> x < 2^(e+1)\<close>, for a positive \<open>x\<close>. A
  number of the program is a double, a rational that \<open>binary64\<close> leaves as it is, below
  \<open>2^1024\<close> in absolute value. The one operation of the class that rounds is the product
  \<open>totalmem() * limit\<close>; it is at most the total memory, so the overflow to \<open>Infinity\<close>
  is not modelled. \<open>Math.floor\<close> and the comparisons are exact.
\<close>

fun bitLength :: "nat \<Rightarrow> nat" where
  "bitLength n = (if n = 0 then 0 else Suc (bitLength (n div 2)))"

definition exponent :: "rat \<Rightarrow> int" where
  "exponent x =
     (if 1 \<le> x then int (bitLength (nat \<lfloor>x\<rfloor>)) - 1
      else - int (bitLength (nat \<lceil>1 / x\<rceil> - 1)))"

definition pow2 :: "int \<Rightarrow> rat" where
  "pow2 e = (if 0 \<le> e then 2 ^ nat e else 1 / 2 ^ nat (- e))"

definition nearestEven :: "rat \<Rightarrow> int" where
  "nearestEven x =
     (let n = \<lfloor>x\<rfloor>; r = x - of_int n
      in if r < 1 / 2 then n
         else if 1 / 2 < r then n + 1
         else if even n then n else n + 1)"

definition binary64 :: "rat \<Rightarrow> rat" where
  "binary64 x =
     (if x = 0 then 0
      else (let ulp = pow2 (max (exponent \<bar>x\<bar>) (- 1022) - 52)
            in of_int (nearestEven (x / ulp)) * ulp))"

definition isDouble :: "rat \<Rightarrow> bool" where
  "isDouble x = (binary64 x = x \<and> \<bar>x\<bar> < 2 ^ 1024)"

definition multiply :: "rat \<Rightarrow> rat \<Rightarrow> rat" where
  "multiply a b = binary64 (a * b)"

subsection \<open>The methods\<close>

text \<open>
  Modelled from the spec: \<open>_shutdown\<close> of \<open>WorkerAbstract\<close>, which is not among the
  sources, is the "final shutdown": it resolves the exit promise (the one-shot notification
  of the final process exit), which runs what \<open>forceExit\<close> chained to it. The spec does
  not say that it changes the state, and the model leaves the state as it is.
\<close>

definition shutdown :: "worker \<Rightarrow> worker" where
  "shutdown w =
     (let w1 = log Shutdown (w\<lparr>exitResolved := True\<rparr>)
      in (fold clearTimeout (exitThen w1) w1)\<lparr>exitThen := []\<rparr>)"

definition killChild :: "worker \<Rightarrow> nat outcome" where
  "killChild w = (case child w of
       None \<Rightarrow> Threw undefinedChild w
     | Some childToKill \<Rightarrow>
         (let w1 = kill childToKill SIGTERM w;
              t = nextTimer w1
          in Returned t
               (w1\<lparr>timers := timers w1 @ [(t, now w1 + SIGKILL_DELAY, childToKill)],
                   nextTimer := t + 1\<rparr>)))"

definition forceExit :: "worker \<Rightarrow> unit outcome" where
  "forceExit w =
     andThen (killChild (w\<lparr>state := SHUTTING_DOWN\<rparr>))
       (\<lambda>sigkillTimeout w1. Returned ()
          (if exitResolved w1 then clearTimeout sigkillTimeout w1
           else w1\<lparr>exitThen := exitThen w1 @ [sigkillTimeout]\<rparr>))"

definition checkMemoryUsage :: "worker \<Rightarrow> unit outcome" where
  "checkMemoryUsage w =
     (if truthyLimit (childIdleMemoryUsageLimit w)
      then childSend CHILD_MESSAGE_MEM_USAGE (w\<lparr>memoryUsageCheck := True\<rparr>)
      else Returned ()
             (log (ConsoleWarn ''Memory usage of workers can only be checked if a limit is set'') w))"

text \<open>
  \<open>callOnProcessEnd e r\<close> is the call \<open>this._onProcessEnd(e, r)\<close>. The field holds the
  closure that \<open>send\<close> installs; the record keeps the caller's callback it closes over.
\<close>

definition callOnProcessEnd :: "errarg \<Rightarrow> string option \<Rightarrow> worker \<Rightarrow> unit outcome" where
  "callOnProcessEnd e r w = (case onProcessEnd w of
       None \<Rightarrow> Threw (TypeError ''this._onProcessEnd is not a function'') w
     | Some cb \<Rightarrow>
         (let hasRequest = (request w \<noteq> None);
              w1 = w\<lparr>request := None\<rparr>
          in andThen
               (if truthyLimit (childIdleMemoryUsageLimit w1)
                then (case child w1 of
                        None \<Rightarrow> Threw undefinedChild w1
                      | Some h \<Rightarrow>
                          if isConnected h w1 \<and> hasRequest then checkMemoryUsage w1
                          else Returned () w1)
                else Returned () w1)
               (\<lambda>_ w2. Returned () (log (CallOnProcessEnd cb e r (request w2)) w2))))"

definition resolveLimit :: "nat \<Rightarrow> rat option \<Rightarrow> int option" where
  "resolveLimit mem limit = (case limit of
       None \<Rightarrow> None
     | Some l \<Rightarrow>
         if l \<noteq> 0 \<and> 0 < l \<and> l \<le> 1 then Some \<lfloor>multiply (of_nat mem) l\<rfloor>
         else if l \<noteq> 0 then Some \<lfloor>l\<rfloor>
         else Some 0)"

definition exceedsLimit :: "int option \<Rightarrow> nat option \<Rightarrow> bool" where
  "exceedsLimit limit usage = (case limit of
       None \<Rightarrow> False
     | Some l \<Rightarrow> l \<noteq> 0 \<and>
         (case usage of None \<Rightarrow> False | Some u \<Rightarrow> u \<noteq> 0 \<and> l < int u))"

definition performRestartIfRequired :: "worker \<Rightarrow> unit outcome" where
  "performRestartIfRequired w =
     (if memoryUsageCheck w then
        (let w1 = w\<lparr>memoryUsageCheck := False\<rparr>;
             limit = resolveLimit (totalmem w1) (childIdleMemoryUsageLimit w1)
         in if exceedsLimit limit (childIdleMemoryUsage w1)
            then andThen (killChild (w1\<lparr>state := RESTARTING\<rparr>)) (\<lambda>_ w2. Returned () w2)
            else Returned () w1)
      else Returned () w)"

text \<open>
  The client error: \<open>construct\<close> is \<open>new Ctor(response[2])\<close> with \<open>Ctor\<close> the global
  function of the name the child sent, and \<open>Error\<close> when there is none. \<open>Error\<close> itself is
  the constructor that the class calls everywhere else; the object it returns refuses no
  assignment. \<open>assignAll\<close> is the sequence of assignments that follows, \<open>type\<close>, \<open>stack\<close>
  and the keys of the value received, in their order. An exception of the construction or
  of an assignment leaves \<open>_onMessage\<close> before \<open>this._onProcessEnd\<close> is called.
\<close>

definition construct :: "globals \<Rightarrow> string \<Rightarrow> string \<Rightarrow> construction" where
  "construct globals name msg =
     (if name = ''Error'' then Builds (newError ''Error'' msg) (\<lambda>key v. None)
      else (case map_of globals name of
              None \<Rightarrow> Builds (newError ''Error'' msg) (\<lambda>key v. None)
            | Some NativeCtor \<Rightarrow> NativeCtor msg))"

fun assignAll :: "(string \<Rightarrow> string \<Rightarrow> js_exception option) \<Rightarrow> (string \<times> string) list
    \<Rightarrow> js_error \<Rightarrow> js_exception + js_error" where
  "assignAll refuses [] e = Inr e"
| "assignAll refuses ((k, v) # kvs) e = (case refuses k v of
       Some x \<Rightarrow> Inl x
     | None \<Rightarrow> assignAll refuses kvs (setProp k v e))"

definition clientError :: "globals \<Rightarrow> string \<Rightarrow> string \<Rightarrow> string \<Rightarrow> jsval
    \<Rightarrow> js_exception + errarg" where
  "clientError globals name msg stack extra = (case extra of
       VObj kvs \<Rightarrow>
         (case construct globals name msg of
            Raises x \<Rightarrow> Inl x
          | Builds e refuses \<Rightarrow>
              (case assignAll refuses ((''type'', name) # (''stack'', stack) # kvs) e of
                 Inl x \<Rightarrow> Inl x
               | Inr e' \<Rightarrow> Inr (Err e')))
     | _ \<Rightarrow> Inr (Raw extra))"

definition setupError :: "string \<Rightarrow> string \<Rightarrow> string \<Rightarrow> errarg" where
  "setupError name msg stack =
     Err (setProp ''stack'' stack
            (setProp ''type'' name (newError ''Error'' (''Error when calling setup: '' @ msg))))"

definition onMessage :: "ParentMessage \<Rightarrow> worker \<Rightarrow> unit outcome" where
  "onMessage response w = (case response of
       PARENT_MESSAGE_OK result \<Rightarrow> callOnProcessEnd (Raw VNull) (Some result) w
     | PARENT_MESSAGE_CLIENT_ERROR name msg stack extra \<Rightarrow>
         (case clientError (globalFunctions w) name msg stack extra of
            Inl x \<Rightarrow> Threw x w
          | Inr error \<Rightarrow> callOnProcessEnd error None w)
     | PARENT_MESSAGE_SETUP_ERROR name msg stack \<Rightarrow>
         callOnProcessEnd (setupError name msg stack) None w
     | PARENT_MESSAGE_CUSTOM payload \<Rightarrow>
         (case onCustomMessage w of
            None \<Rightarrow> Threw (TypeError ''this._onCustomMessage is not a function'') w
          | Some cb \<Rightarrow> Returned () (log (CallOnCustomMessage cb payload) w))
     | PARENT_MESSAGE_MEM_USAGE usage \<Rightarrow>
         (let w1 = w\<lparr>childIdleMemoryUsage := Some usage\<rparr>;
              w2 = (case resolveMemoryUsage w1 of
                      None \<Rightarrow> w1
                    | Some p \<Rightarrow> (settle p (Resolved usage) w1)
                        \<lparr>resolveMemoryUsage := None, memoryUsagePromise := None\<rparr>)
          in performRestartIfRequired w2)
     | PARENT_MESSAGE_UNKNOWN t \<Rightarrow>
         Threw (TypeError (''Unexpected response from worker: '' @ t)) w)"

definition addStream :: "nat \<Rightarrow> nat list option \<Rightarrow> nat list option" where
  "addStream h s = (case s of None \<Rightarrow> Some [h] | Some hs \<Rightarrow> Some (hs @ [h]))"

definition increment :: "nat option \<Rightarrow> nat option" where
  "increment r = (case r of None \<Rightarrow> None | Some n \<Rightarrow> Some (n + 1))"

definition exceeds :: "nat option \<Rightarrow> nat \<Rightarrow> bool" where
  "exceeds r m = (case r of None \<Rightarrow> False | Some n \<Rightarrow> m < n)"

definition retryMessage :: "nat option \<Rightarrow> string" where
  "retryMessage r =
     ''Jest worker encountered '' @ (case r of None \<Rightarrow> ''NaN'' | Some n \<Rightarrow> showNat n)
       @ '' child process exceptions, exceeding retry limit''"

text \<open>
  \<open>initialize\<close>, block by block: the kill of a child that is still connected, the
  warning when the output is not piped, \<open>fork\<close> with the wiring of the two output
  streams (a child has them when it is silent), the count of the retry with the reply
  that is made up once the limit is exceeded, and the readiness signal.
\<close>

definition killConnected :: "worker \<Rightarrow> worker" where
  "killConnected w = (case child w of
       None \<Rightarrow> w
     | Some h \<Rightarrow> if isConnected h w then kill h SIGKILL w else w)"

definition isSilent :: "worker \<Rightarrow> bool" where
  "isSilent w = (case silent (options w) of None \<Rightarrow> True | Some b \<Rightarrow> b)"

definition warnNotSilent :: "worker \<Rightarrow> worker" where
  "warnNotSilent w =
     (if \<not> isSilent w
      then log (ConsoleWarn ''Unable to detect out of memory event if silent === false'') w
      else w)"

definition wireStreams :: "worker \<Rightarrow> worker" where
  "wireStreams w = (case child w of
       None \<Rightarrow> w
     | Some h \<Rightarrow>
         if isSilent w
         then w\<lparr>stdout := addStream h (stdout w), stderr := addStream h (stderr w)\<rparr>
         else w)"

definition countRetry :: "worker \<Rightarrow> unit outcome" where
  "countRetry w =
     (let w1 = w\<lparr>retries := increment (retries w)\<rparr>
      in if exceeds (retries w1) (maxRetries (options w1))
         then andThen
                (onMessage
                   (PARENT_MESSAGE_CLIENT_ERROR ''Error'' (retryMessage (retries w1))
                      generatedStack (VObj [(''type'', ''WorkerError'')])) w1)
                (\<lambda>_ w2. Returned () (w2\<lparr>request := None\<rparr>))
         else Returned () w1)"

definition ready :: "worker \<Rightarrow> worker" where
  "ready w =
     (let w1 = w\<lparr>state := OK\<rparr>
      in if resolveWorkerReady w1 then log ResolveWorkerReady w1 else w1)"

definition initialize :: "worker \<Rightarrow> unit outcome" where
  "initialize w =
     (if state w = OUT_OF_MEMORY \<or> state w = SHUTTING_DOWN \<or> state w = SHUT_DOWN
      then Returned () w
      else
        (let w1 = (killConnected w)\<lparr>state := STARTING\<rparr>;
             w2 = (warnNotSilent w1)\<lparr>stderrBuffer := []\<rparr>;
             w3 = wireStreams (fork w2)
         in andThen
              (childSend
                 (CHILD_MESSAGE_INITIALIZE False (workerPath (options w3)) (setupArgs (options w3))) w3)
              (\<lambda>_ w4. andThen (countRetry w4) (\<lambda>_ w5. Returned () (ready w5)))))"

definition detectOutOfMemoryCrash :: "worker \<Rightarrow> worker" where
  "detectOutOfMemoryCrash w =
     (let bufferStr = concat (stderrBuffer w)
      in if includesStr bufferStr ''heap out of memory''
            \<or> includesStr bufferStr ''allocation failure;''
            \<or> includesStr bufferStr ''Last few GCs''
         then (if state w = OK \<or> state w = STARTING then w\<lparr>state := OUT_OF_MEMORY\<rparr> else w)
         else w)"

definition stderrDataHandler :: "string option \<Rightarrow> worker \<Rightarrow> unit outcome" where
  "stderrDataHandler chunk w =
     (let w1 = (case chunk of None \<Rightarrow> w | Some c \<Rightarrow> w\<lparr>stderrBuffer := stderrBuffer w @ [c]\<rparr>);
          w2 = detectOutOfMemoryCrash w1
      in if state w2 = OUT_OF_MEMORY
         then andThen (killChild (w2\<lparr>workerReadyPromise := False, resolveWorkerReady := False\<rparr>))
                (\<lambda>_ w3. Returned () (shutdown w3))
         else Returned () w2)"

definition onDisconnect :: "worker \<Rightarrow> unit outcome" where
  "onDisconnect w =
     (let w1 = detectOutOfMemoryCrash (w\<lparr>workerReadyPromise := False, resolveWorkerReady := False\<rparr>)
      in if state w1 = OUT_OF_MEMORY
         then andThen (killChild w1) (\<lambda>_ w2. Returned () (shutdown w2))
         else Returned () w1)"

definition outOfMemoryError :: js_error where
  "outOfMemoryError = newError ''Error'' ''Jest worker ran out of memory and crashed''"

definition abnormal :: "int option \<Rightarrow> bool" where
  "abnormal exitCode =
     (exitCode \<noteq> Some 0 \<and> exitCode \<noteq> None
      \<and> exitCode \<noteq> Some SIGTERM_EXIT_CODE \<and> exitCode \<noteq> Some SIGKILL_EXIT_CODE)"

definition onExit :: "int option \<Rightarrow> worker \<Rightarrow> unit outcome" where
  "onExit exitCode w =
     (let w1 = detectOutOfMemoryCrash (w\<lparr>workerReadyPromise := False, resolveWorkerReady := False\<rparr>)
      in if exitCode \<noteq> Some 0 \<and> state w1 = OUT_OF_MEMORY
         then andThen (callOnProcessEnd (Err outOfMemoryError) None w1)
                (\<lambda>_ w2. Returned () (shutdown w2))
         else if (abnormal exitCode \<and> state w1 \<noteq> SHUTTING_DOWN) \<or> state w1 = RESTARTING
         then andThen (initialize (w1\<lparr>state := RESTARTING\<rparr>))
                (\<lambda>_ w2. case request w2 of
                           None \<Rightarrow> Returned () w2
                         | Some r \<Rightarrow> childSend r w2)
         else Returned () (shutdown w1))"

definition send :: "ChildMessage \<Rightarrow> nat \<Rightarrow> nat \<Rightarrow> nat \<Rightarrow> worker \<Rightarrow> unit outcome" where
  "send req onProcessStart onEnd onCustom w =
     (let w1 = log (CallOnProcessStart onProcessStart) (w\<lparr>stderrBuffer := []\<rparr>);
          w2 = w1\<lparr>onProcessEnd := Some onEnd, onCustomMessage := Some onCustom,
                 request := Some req, retries := Some 0\<rparr>
      in childSend req w2)"

definition childNotRunning :: string where
  "childNotRunning = ''Child process is not running.''"

definition getMemoryUsage :: "worker \<Rightarrow> nat outcome" where
  "getMemoryUsage w = (case memoryUsagePromise w of
       Some p \<Rightarrow> Returned p w
     | None \<Rightarrow>
         (let p = length (promises w);
              w1 = w\<lparr>promises := promises w @ [Pending],
                     resolveMemoryUsage := Some p, memoryUsagePromise := Some p\<rparr>
          in case child w1 of
               None \<Rightarrow> Threw undefinedChild w1
             | Some h \<Rightarrow>
                 if \<not> isConnected h w1
                 then Returned p
                        ((settle p (Rejected childNotRunning) w1)
                           \<lparr>memoryUsagePromise := None, resolveMemoryUsage := None\<rparr>)
                 else Returned p (log (Send h CHILD_MESSAGE_MEM_USAGE) w1)))"

text \<open>
  The callback that \<open>getMemoryUsage\<close> passes to \<open>send\<close>, when the channel reports the
  error \<open>err\<close> for the promise \<open>p\<close> it was created with.
\<close>

definition memoryUsageSendFailed :: "nat \<Rightarrow> string \<Rightarrow> worker \<Rightarrow> worker" where
  "memoryUsageSendFailed p err w =
     settle p (Rejected err) (w\<lparr>memoryUsagePromise := None, resolveMemoryUsage := None\<rparr>)"

text \<open>
  The clock advances by \<open>d\<close> units: every pending timer that is due runs its callback,
  \<open>childToKill.kill('SIGKILL')\<close> on the handle the timer was created with, and is gone.
\<close>

definition elapse :: "nat \<Rightarrow> worker \<Rightarrow> worker" where
  "elapse d w =
     (let t = now w + d;
          ready = filter (\<lambda>(i, due, h). due \<le> t) (timers w);
          w1 = w\<lparr>timers := filter (\<lambda>(i, due, h). \<not> due \<le> t) (timers w), now := t\<rparr>
      in fold (\<lambda>(i, due, h). kill h SIGKILL) ready w1)"

text \<open>The constructor: the fields as it assigns them, then \<open>initialize\<close>.\<close>

definition newWorker :: "WorkerOptions \<Rightarrow> nat \<Rightarrow> globals \<Rightarrow> unit outcome" where
  "newWorker opts mem globals =
     initialize
       \<lparr>state = STARTING, options = opts, child = None, request = None, retries = None,
        onProcessEnd = None, onCustomMessage = None, stdout = None, stderr = None,
        stderrBuffer = [], memoryUsagePromise = None, resolveMemoryUsage = None,
        childIdleMemoryUsage = None,
        childIdleMemoryUsageLimit =
          (if truthyLimit (idleMemoryLimit opts) then idleMemoryLimit opts else None),
        memoryUsageCheck = False, workerReadyPromise = False, resolveWorkerReady = False,
        exitResolved = False, exitThen = [], children = [], promises = [], timers = [],
        nextTimer = 0, now = 0, totalmem = mem, globalFunctions = globals, trace = []\<rparr>"

subsection \<open>Runs\<close>

text \<open>
  The worker that an outcome leaves behind, and the events a step has added to the trace.
\<close>

fun stateOf :: "'a outcome \<Rightarrow> worker" where
  "stateOf (Returned r w) = w"
| "stateOf (Threw e w) = w"

definition newEvents :: "worker \<Rightarrow> worker \<Rightarrow> event list" where
  "newEvents w w' = drop (length (trace w)) (trace w')"

text \<open>
  What the runtime delivers to the listeners that \<open>initialize\<close> attaches: a message, an
  exit code, a disconnect of the handle \<open>h\<close> (whose connected flag is then false), a chunk
  of error output, or the passing of time. The listeners are bound to the worker, not to
  the handle that emitted. Nothing in the class catches an exception, so an exception
  leaves the listener that the runtime called; \<open>run\<close> ends with it.
\<close>

datatype input =
    Message ParentMessage
  | Exit "int option"
  | Disconnect nat
  | StderrData "string option"
  | Elapse nat

definition deliver :: "input \<Rightarrow> worker \<Rightarrow> unit outcome" where
  "deliver i w = (case i of
       Message response \<Rightarrow> onMessage response w
     | Exit exitCode \<Rightarrow> onExit exitCode w
     | Disconnect h \<Rightarrow> onDisconnect (w\<lparr>children := (children w)[h := False]\<rparr>)
     | StderrData chunk \<Rightarrow> stderrDataHandler chunk w
     | Elapse d \<Rightarrow> Returned () (elapse d w))"

fun run :: "input list \<Rightarrow> worker \<Rightarrow> unit outcome" where
  "run [] w = Returned () w"
| "run (i # rest) w = andThen (deliver i w) (\<lambda>_. run rest)"


subsection \<open>A worker at work\<close>

text \<open>
  The worker of the scenarios: at most three retries, an idle-memory limit of one half
  of a total memory of 1,000,000,000 bytes, and two of the functions of the global object:
  \<open>TypeError\<close>, which builds an error, and \<open>Promise\<close>, which throws when its argument is
  not a function. \<open>idleWorker\<close> is the worker as the
  constructor leaves it, \<open>busyWorker\<close> has been sent the request \<open>x\<close> with the
  callbacks 1, 2 and 3.
\<close>

definition exampleOptions :: WorkerOptions where
  "exampleOptions =
     \<lparr>maxRetries = 3, idleMemoryLimit = Some (1 / 2), workerId = 0,
      workerPath = ''task.js'', setupArgs = [], silent = None\<rparr>"

definition exampleGlobals :: globals where
  "exampleGlobals =
     [(''TypeError'', \<lambda>msg. Builds (newError ''TypeError'' msg) (\<lambda>key v. None)),
      (''Promise'',
       \<lambda>msg. Raises (TypeError (''Promise resolver '' @ msg @ '' is not a function'')))]"

definition idleWorker :: worker where
  "idleWorker =
     \<lparr>state = OK, options = exampleOptions, child = Some 0, request = None, retries = None,
      onProcessEnd = None, onCustomMessage = None, stdout = Some [0], stderr = Some [0],
      stderrBuffer = [], memoryUsagePromise = None, resolveMemoryUsage = None,
      childIdleMemoryUsage = None, childIdleMemoryUsageLimit = Some (1 / 2),
      memoryUsageCheck = False, workerReadyPromise = False, resolveWorkerReady = False,
      exitResolved = False, exitThen = [], children = [True], promises = [], timers = [],
      nextTimer = 0, now = 0, totalmem = 1000000000, globalFunctions = exampleGlobals,
      trace = [Fork 0 1, Send 0 (CHILD_MESSAGE_INITIALIZE False ''task.js'' [])]\<rparr>"

definition busyWorker :: worker where
  "busyWorker =
     idleWorker\<lparr>request := Some (CHILD_MESSAGE_CALL ''x''), retries := Some 0,
       onProcessEnd := Some 2, onCustomMessage := Some 3,
       trace := trace idleWorker @ [CallOnProcessStart 1, Send 0 (CHILD_MESSAGE_CALL ''x'')]\<rparr>"

subsection \<open>What the methods amount to\<close>

text \<open>
  The definitions of this part are not read off the source: they name the worker that a
  method leaves behind and the events it emits, and the lemmas of the next section prove
  that the methods above compute them.
\<close>

definition terminal :: "worker \<Rightarrow> bool" where
  "terminal w = (state w = OUT_OF_MEMORY \<or> state w = SHUTTING_DOWN \<or> state w = SHUT_DOWN)"

definition killOld :: "worker \<Rightarrow> event list" where
  "killOld w = (case child w of
       None \<Rightarrow> []
     | Some h \<Rightarrow> if isConnected h w then [Kill h SIGKILL] else [])"

definition warnEvents :: "worker \<Rightarrow> event list" where
  "warnEvents w =
     (if isSilent w then []
      else [ConsoleWarn ''Unable to detect out of memory event if silent === false''])"

definition initMessage :: "worker \<Rightarrow> ChildMessage" where
  "initMessage w =
     CHILD_MESSAGE_INITIALIZE False (workerPath (options w)) (setupArgs (options w))"

definition forked :: "worker \<Rightarrow> worker" where
  "forked w =
     w\<lparr>state := STARTING,
       stderrBuffer := [],
       children := children w @ [True],
       child := Some (length (children w)),
       trace := trace w @ killOld w @ warnEvents w
                  @ [Fork (length (children w)) (workerId (options w) + 1)],
       stdout := (if isSilent w then addStream (length (children w)) (stdout w) else stdout w),
       stderr := (if isSilent w then addStream (length (children w)) (stderr w) else stderr w)\<rparr>"

definition spawned :: "worker \<Rightarrow> worker" where
  "spawned w = log (Send (length (children w)) (initMessage w)) (forked w)"

definition respawned :: "worker \<Rightarrow> worker" where
  "respawned w = (spawned w)\<lparr>retries := increment (retries w)\<rparr>"

definition retryLimitError :: "nat option \<Rightarrow> errarg" where
  "retryLimitError r =
     Err \<lparr>ctor = ''Error'',
          props = [(''message'', retryMessage r), (''stack'', generatedStack),
                   (''type'', ''WorkerError'')]\<rparr>"

definition checks :: "nat \<Rightarrow> worker \<Rightarrow> bool" where
  "checks h w = (truthyLimit (childIdleMemoryUsageLimit w) \<and> isConnected h w \<and> request w \<noteq> None)"

definition completed :: "nat \<Rightarrow> nat \<Rightarrow> errarg \<Rightarrow> string option \<Rightarrow> worker \<Rightarrow> worker" where
  "completed cb h e r w =
     (if checks h w
      then w\<lparr>request := None, memoryUsageCheck := True,
             trace := trace w @ [Send h CHILD_MESSAGE_MEM_USAGE, CallOnProcessEnd cb e r None]\<rparr>
      else w\<lparr>request := None, trace := trace w @ [CallOnProcessEnd cb e r None]\<rparr>)"

definition oomSignature :: "worker \<Rightarrow> bool" where
  "oomSignature w =
     (includesStr (concat (stderrBuffer w)) ''heap out of memory''
      \<or> includesStr (concat (stderrBuffer w)) ''allocation failure;''
      \<or> includesStr (concat (stderrBuffer w)) ''Last few GCs'')"

definition exiting :: "worker \<Rightarrow> worker" where
  "exiting w =
     detectOutOfMemoryCrash (w\<lparr>workerReadyPromise := False, resolveWorkerReady := False\<rparr>)"

definition killing :: "nat \<Rightarrow> worker \<Rightarrow> worker" where
  "killing h w =
     w\<lparr>trace := trace w @ [Kill h SIGTERM],
       timers := timers w @ [(nextTimer w, now w + SIGKILL_DELAY, h)],
       nextTimer := nextTimer w + 1\<rparr>"

definition reported :: "nat \<Rightarrow> worker \<Rightarrow> worker" where
  "reported u w = (case resolveMemoryUsage w of
       None \<Rightarrow> w\<lparr>childIdleMemoryUsage := Some u\<rparr>
     | Some p \<Rightarrow>
         (settle p (Resolved u) (w\<lparr>childIdleMemoryUsage := Some u\<rparr>))
           \<lparr>resolveMemoryUsage := None, memoryUsagePromise := None\<rparr>)"

definition restarts :: "worker \<Rightarrow> bool" where
  "restarts w =
     exceedsLimit (resolveLimit (totalmem w) (childIdleMemoryUsageLimit w))
       (childIdleMemoryUsage w)"

definition respawnTail :: "worker \<Rightarrow> event list" where
  "respawnTail v =
     (if exceeds (increment (retries v)) (maxRetries (options v))
      then (case onProcessEnd v of
              None \<Rightarrow> []
            | Some cb \<Rightarrow>
                (if truthyLimit (childIdleMemoryUsageLimit v) \<and> request v \<noteq> None
                 then [Send (length (children v)) CHILD_MESSAGE_MEM_USAGE] else [])
                @ [CallOnProcessEnd cb (retryLimitError (increment (retries v))) None None]
                @ (if resolveWorkerReady v then [ResolveWorkerReady] else []))
      else (if resolveWorkerReady v then [ResolveWorkerReady] else [])
           @ (case request v of None \<Rightarrow> [] | Some r \<Rightarrow> [Send (length (children v)) r]))"

definition respawn :: "worker \<Rightarrow> unit outcome" where
  "respawn v =
     andThen (initialize v)
       (\<lambda>_ w2. case request w2 of None \<Rightarrow> Returned () w2 | Some r \<Rightarrow> childSend r w2)"

definition retired :: "worker \<Rightarrow> worker" where
  "retired w =
     w\<lparr>exitResolved := True, trace := trace w @ [Shutdown],
       timers := filter (\<lambda>(i, due, h). i \<notin> set (exitThen w)) (timers w),
       exitThen := []\<rparr>"

subsection \<open>Kinds of events\<close>

text \<open>
  A fork, a request sent to a child, a call of the completion callback; and two workers of
  which the second has the trace of the first followed by events among which no request is
  sent.
\<close>

fun isFork :: "event \<Rightarrow> bool" where
  "isFork (Fork h i) = True"
| "isFork e = False"

fun isCall :: "event \<Rightarrow> bool" where
  "isCall (Send h (CHILD_MESSAGE_CALL p)) = True"
| "isCall e = False"


definition callFree :: "worker \<Rightarrow> worker \<Rightarrow> bool" where
  "callFree w w' = (\<exists>es. trace w' = trace w @ es \<and> filter isCall es = [])"

subsection \<open>Workers that can arise\<close>

text \<open>
  The constructor makes a worker, and the runtime and the caller act on it through the
  listeners and the public methods. \<open>installed\<close> is what such a worker always satisfies,
  and \<open>kept\<close> relates a worker to what a listener or a method other than \<open>send\<close> makes
  of it.
\<close>

inductive reachable :: "worker \<Rightarrow> bool" where
  constructed: "reachable (stateOf (newWorker opts mem globals))"
| delivered: "reachable w \<Longrightarrow> reachable (stateOf (deliver i w))"
| sent: "reachable w \<Longrightarrow> reachable (stateOf (send req onStart onEnd onCustom w))"
| initialized: "reachable w \<Longrightarrow> reachable (stateOf (initialize w))"
| killed: "reachable w \<Longrightarrow> reachable (stateOf (killChild w))"
| forced: "reachable w \<Longrightarrow> reachable (stateOf (forceExit w))"
| asked: "reachable w \<Longrightarrow> reachable (stateOf (getMemoryUsage w))"
| checked: "reachable w \<Longrightarrow> reachable (stateOf (checkMemoryUsage w))"
| failed: "reachable w \<Longrightarrow> reachable (memoryUsageSendFailed p err w)"

definition installed :: "worker \<Rightarrow> bool" where
  "installed w =
     (child w \<noteq> None
      \<and> (request w \<noteq> None \<longrightarrow> retries w \<noteq> None)
      \<and> (retries w \<noteq> None \<longrightarrow> onProcessEnd w \<noteq> None))"

definition kept :: "worker \<Rightarrow> worker \<Rightarrow> bool" where
  "kept w w' =
     (child w' \<noteq> None
      \<and> onProcessEnd w' = onProcessEnd w
      \<and> (retries w' = None) = (retries w = None)
      \<and> (request w' = request w \<or> request w' = None))"

subsection \<open>The worker at later moments\<close>

text \<open>
  \<open>crashed1\<close> to \<open>crashed4\<close>: \<open>busyWorker\<close> after one to four exits with code 1.
  \<open>checkingWorker\<close>: after the successful reply to its request, with the memory check
  requested; \<open>restartingWorker\<close>: after a usage report of 600,000,000 bytes;
  \<open>restartingOomWorker\<close>: after the child being restarted has printed an out-of-memory
  message. \<open>announcedOomWorker\<close>: \<open>busyWorker\<close> after its child has printed that
  message.
  \<open>tinyLimitWorker\<close>: \<open>checkingWorker\<close> configured with a limit of \<open>2^-31\<close>.
\<close>

definition crashed1 :: worker where
  "crashed1 =
     busyWorker\<lparr>child := Some 1, children := [True, True], retries := Some 1,
       stdout := Some [0, 1], stderr := Some [0, 1],
       trace := trace busyWorker
         @ [Kill 0 SIGKILL, Fork 1 1, Send 1 (CHILD_MESSAGE_INITIALIZE False ''task.js'' []),
            Send 1 (CHILD_MESSAGE_CALL ''x'')]\<rparr>"

definition crashed2 :: worker where
  "crashed2 =
     crashed1\<lparr>child := Some 2, children := [True, True, True], retries := Some 2,
       stdout := Some [0, 1, 2], stderr := Some [0, 1, 2],
       trace := trace crashed1
         @ [Kill 1 SIGKILL, Fork 2 1, Send 2 (CHILD_MESSAGE_INITIALIZE False ''task.js'' []),
            Send 2 (CHILD_MESSAGE_CALL ''x'')]\<rparr>"

definition crashed3 :: worker where
  "crashed3 =
     crashed2\<lparr>child := Some 3, children := [True, True, True, True], retries := Some 3,
       stdout := Some [0, 1, 2, 3], stderr := Some [0, 1, 2, 3],
       trace := trace crashed2
         @ [Kill 2 SIGKILL, Fork 3 1, Send 3 (CHILD_MESSAGE_INITIALIZE False ''task.js'' []),
            Send 3 (CHILD_MESSAGE_CALL ''x'')]\<rparr>"

definition crashed4 :: worker where
  "crashed4 =
     crashed3\<lparr>child := Some 4, children := [True, True, True, True, True], retries := Some 4,
       stdout := Some [0, 1, 2, 3, 4], stderr := Some [0, 1, 2, 3, 4],
       request := None, memoryUsageCheck := True,
       trace := trace crashed3
         @ [Kill 3 SIGKILL, Fork 4 1, Send 4 (CHILD_MESSAGE_INITIALIZE False ''task.js'' []),
            Send 4 CHILD_MESSAGE_MEM_USAGE,
            CallOnProcessEnd 2 (retryLimitError (Some 4)) None None]\<rparr>"

definition announcedOomWorker :: worker where
  "announcedOomWorker =
     busyWorker\<lparr>stderrBuffer := [''heap out of memory''], state := OUT_OF_MEMORY,
       trace := trace busyWorker @ [Kill 0 SIGTERM, Shutdown],
       timers := [(0, 500, 0)], nextTimer := 1, exitResolved := True\<rparr>"

definition checkingWorker :: worker where
  "checkingWorker =
     busyWorker\<lparr>request := None, memoryUsageCheck := True,
       trace := trace busyWorker
         @ [Send 0 CHILD_MESSAGE_MEM_USAGE,
            CallOnProcessEnd 2 (Raw VNull) (Some ''r'') None]\<rparr>"

definition restartingWorker :: worker where
  "restartingWorker =
     checkingWorker\<lparr>childIdleMemoryUsage := Some 600000000, memoryUsageCheck := False,
       state := RESTARTING,
       trace := trace checkingWorker @ [Kill 0 SIGTERM],
       timers := [(0, 500, 0)], nextTimer := 1\<rparr>"

definition restartingOomWorker :: worker where
  "restartingOomWorker = restartingWorker\<lparr>stderrBuffer := [''heap out of memory'']\<rparr>"

definition tinyLimitWorker :: worker where
  "tinyLimitWorker =
     checkingWorker\<lparr>options := exampleOptions\<lparr>idleMemoryLimit := Some (1 / 2147483648)\<rparr>,
       childIdleMemoryUsageLimit := Some (1 / 2147483648)\<rparr>"

section \<open>What the methods compute\<close>

subsection \<open>Products of doubles\<close>

declare bitLength.simps [simp del]

lemma bitLength_0: "bitLength 0 = 0"
  by (simp add: bitLength.simps)

lemma bitLength_1: "bitLength (Suc 0) = Suc 0"
  by (simp add: bitLength.simps)

lemma bitLength_numeral: "bitLength (numeral k) = Suc (bitLength (numeral k div 2))"
  by (subst bitLength.simps) simp

lemma floor_rat_numeral: "\<lfloor>numeral a / numeral b :: rat\<rfloor> = numeral a div numeral b"
  by (metis floor_divide_of_int_eq of_int_numeral)

lemma floor_rat_one: "\<lfloor>1 / numeral b :: rat\<rfloor> = 1 div numeral b"
  by (metis floor_divide_of_int_eq of_int_1 of_int_numeral)

lemma floor_rat_minus: "\<lfloor>- (numeral a / numeral b) :: rat\<rfloor> = - numeral a div numeral b"
  by (metis divide_minus_left floor_divide_of_int_eq of_int_neg_numeral of_int_numeral)

lemma ceiling_rat_numeral: "\<lceil>numeral a / numeral b :: rat\<rceil> = - (- numeral a div numeral b)"
  by (metis ceiling_def floor_divide_of_int_eq minus_divide_left of_int_minus of_int_numeral)

lemmas number_defs = multiply_def isDouble_def binary64_def exponent_def pow2_def
  nearestEven_def Let_def
  bitLength_numeral bitLength_0 bitLength_1 floor_rat_numeral floor_rat_one floor_rat_minus
  ceiling_rat_numeral

text \<open>
  \<open>exponent\<close> is the binary exponent, and \<open>binary64\<close> is within half a step of what it
  rounds.
\<close>

lemma bitLength_bounds:
  "0 < n \<Longrightarrow> 2 ^ (bitLength n - 1) \<le> n \<and> n < 2 ^ bitLength n"
proof (induction n rule: bitLength.induct)
  case (1 n)
  show ?case
  proof (cases "n div 2 = 0")
    case True
    with 1(2) have "n = 1" by (cases n) auto
    then show ?thesis by (simp add: bitLength_1)
  next
    case False
    then have pos: "0 < n div 2" by simp
    have ih: "2 ^ (bitLength (n div 2) - 1) \<le> n div 2 \<and> n div 2 < 2 ^ bitLength (n div 2)"
      using 1(1) 1(2) pos by simp
    have bl: "bitLength n = Suc (bitLength (n div 2))"
      using 1(2) by (subst bitLength.simps) simp
    have b1: "0 < bitLength (n div 2)"
      using pos by (subst bitLength.simps) simp
    then have e: "(2 :: nat) ^ (bitLength n - 1) = 2 * 2 ^ (bitLength (n div 2) - 1)"
      by (cases "bitLength (n div 2)") (simp_all add: bl)
    have "2 * (n div 2) \<le> n" by simp
    moreover have "2 * 2 ^ (bitLength (n div 2) - 1) \<le> 2 * (n div 2)"
      using ih by simp
    ultimately have lower: "2 ^ (bitLength n - 1) \<le> n" unfolding e by linarith
    have "n < 2 * (n div 2) + 2" by presburger
    moreover have "2 * (n div 2) + 2 \<le> 2 * 2 ^ bitLength (n div 2)"
      using ih by simp
    ultimately have "n < 2 * 2 ^ bitLength (n div 2)" by linarith
    then have "n < 2 ^ bitLength n" by (simp add: bl)
    with lower show ?thesis by simp
  qed
qed

lemma exponent_bounds:
  assumes "0 < x"
  shows "pow2 (exponent x) \<le> x \<and> x < pow2 (exponent x + 1)"
proof (cases "1 \<le> x")
  case True
  define n where "n = nat \<lfloor>x\<rfloor>"
  have n1: "0 < n" using True by (simp add: n_def)
  have fl: "0 \<le> \<lfloor>x\<rfloor>" using True by simp
  have nx: "of_nat n \<le> x" "x < of_nat n + 1"
    using floor_correct [of x] fl by (simp_all add: n_def)
  have b: "2 ^ (bitLength n - 1) \<le> n" "n < 2 ^ bitLength n"
    using bitLength_bounds [OF n1] by simp_all
  have bp: "0 < bitLength n" using n1 by (subst bitLength.simps) simp
  have e: "exponent x = int (bitLength n) - 1"
    using True by (simp add: exponent_def n_def)
  have p1: "pow2 (exponent x) = 2 ^ (bitLength n - 1)"
    using bp by (simp add: e pow2_def nat_diff_distrib')
  have p2: "pow2 (exponent x + 1) = 2 ^ bitLength n"
    by (simp add: e pow2_def)
  have "(of_nat (2 ^ (bitLength n - 1)) :: rat) \<le> of_nat n"
    using b(1) by (simp only: of_nat_le_iff)
  then have "(2 :: rat) ^ (bitLength n - 1) \<le> of_nat n" by simp
  moreover have "(of_nat (Suc n) :: rat) \<le> of_nat (2 ^ bitLength n)"
    using b(2) by (simp only: of_nat_le_iff Suc_le_eq)
  then have "of_nat n + 1 \<le> (2 :: rat) ^ bitLength n" by simp
  ultimately show ?thesis using nx unfolding p1 p2 by linarith
next
  case False
  define y where "y = 1 / x"
  define m where "m = nat \<lceil>y\<rceil>"
  have y1: "1 < y" using False assms by (simp add: y_def)
  have cl: "2 \<le> \<lceil>y\<rceil>" using y1 by (simp add: le_ceiling_iff)
  have m2: "2 \<le> m" unfolding m_def using cl by linarith
  have mc: "(of_nat m :: rat) = of_int \<lceil>y\<rceil>"
    unfolding m_def using cl by (metis of_nat_nat order_trans zero_le_numeral of_int_of_nat_eq)
  have my: "y \<le> of_nat m" "of_nat m - 1 < y"
    using ceiling_correct [of y] unfolding mc by linarith+
  define k where "k = bitLength (m - 1)"
  have m1: "0 < m - 1" using m2 by simp
  have b: "2 ^ (k - 1) \<le> m - 1" "m - 1 < 2 ^ k"
    using bitLength_bounds [OF m1] by (simp_all add: k_def)
  have kp: "0 < k" using m1 unfolding k_def by (subst bitLength.simps) simp
  have e: "exponent x = - int k"
    using False by (simp add: exponent_def k_def m_def y_def)
  have p1: "pow2 (exponent x) = 1 / 2 ^ k"
    using kp by (simp add: e pow2_def)
  have p2: "pow2 (exponent x + 1) = 1 / 2 ^ (k - 1)"
    using kp by (cases "k = 1") (auto simp add: e pow2_def nat_diff_distrib')
  have "m \<le> 2 ^ k" using b(2) m2 by simp
  then have "(of_nat m :: rat) \<le> of_nat (2 ^ k)" by (simp only: of_nat_le_iff)
  then have "of_nat m \<le> (2 :: rat) ^ k" by simp
  with my(1) have u: "y \<le> 2 ^ k" by (rule order_trans)
  have "(of_nat (2 ^ (k - 1)) :: rat) \<le> of_nat (m - 1)"
    using b(1) by (simp only: of_nat_le_iff)
  then have "(2 :: rat) ^ (k - 1) \<le> of_nat (m - 1)" by simp
  moreover have "(of_nat (m - 1) :: rat) = of_nat m - 1" using m2 by (simp add: of_nat_diff)
  ultimately have l: "2 ^ (k - 1) < y" using my(2) by linarith
  have xy: "x = 1 / y" by (simp add: y_def)
  have "1 / 2 ^ k \<le> x"
    using u y1 assms by (simp add: xy field_simps)
  moreover have "x < 1 / 2 ^ (k - 1)"
    using l y1 assms by (simp add: xy field_simps)
  ultimately show ?thesis unfolding p1 p2 by blast
qed


lemma pow2_positive: "0 < pow2 e"
  by (simp add: pow2_def)

lemma nearestEven_near: "\<bar>of_int (nearestEven z) - z\<bar> \<le> 1 / 2"
proof -
  have "of_int \<lfloor>z\<rfloor> \<le> z" "z < of_int \<lfloor>z\<rfloor> + 1"
    using floor_correct [of z] by simp_all
  then show ?thesis
    by (auto simp add: nearestEven_def Let_def abs_le_iff)
qed

lemma binary64_near:
  "\<bar>binary64 x - x\<bar> \<le> pow2 (max (exponent \<bar>x\<bar>) (- 1022) - 52) / 2"
proof (cases "x = 0")
  case True
  then show ?thesis using pow2_positive [of "max (exponent \<bar>x\<bar>) (- 1022) - 52"]
    by (simp add: binary64_def)
next
  case False
  define ulp where "ulp = pow2 (max (exponent \<bar>x\<bar>) (- 1022) - 52)"
  have p: "0 < ulp" by (simp add: ulp_def pow2_positive)
  have b: "binary64 x = of_int (nearestEven (x / ulp)) * ulp"
    using False by (simp add: binary64_def Let_def ulp_def)
  have "binary64 x - x = (of_int (nearestEven (x / ulp)) - x / ulp) * ulp"
    using p by (simp add: b field_simps)
  then have "\<bar>binary64 x - x\<bar> = \<bar>of_int (nearestEven (x / ulp)) - x / ulp\<bar> * ulp"
    using p by (simp add: abs_mult)
  also have "\<dots> \<le> (1 / 2) * ulp"
    using nearestEven_near [of "x / ulp"] p by (simp only: mult_le_cancel_right_pos)
  finally show ?thesis by (simp add: ulp_def)
qed

text \<open>
  One half of 1,000,000,000 bytes is exact. The double nearest to 0.7 is
  \<open>3152519739159347 / 2^52\<close> and the double nearest to 0.6 is \<open>5404319552844595 / 2^53\<close>:
  the product of 5,638,656,000 by the first is a double below 3,947,059,200, and the
  product of 1,000,000,000 by the second is rounded up to 600,000,000, one byte above the
  floor of the exact product.
\<close>

lemma multiply_half: "multiply 1000000000 (1 / 2) = 500000000"
  by (simp add: number_defs)

lemma nearest_doubles:
  "binary64 (7 / 10) = 3152519739159347 / 4503599627370496
   \<and> binary64 (6 / 10) = 5404319552844595 / 9007199254740992
   \<and> isDouble (3152519739159347 / 4503599627370496)
   \<and> isDouble (5404319552844595 / 9007199254740992)
   \<and> isDouble 5638656000 \<and> isDouble 1000000000 \<and> \<not> isDouble (7 / 10)"
  by (simp add: number_defs)

lemma multiply_below:
  "\<lfloor>multiply 5638656000 (3152519739159347 / 4503599627370496)\<rfloor> = 3947059199"
  by (simp add: number_defs)

lemma multiply_rounds_up:
  "\<lfloor>multiply 1000000000 (5404319552844595 / 9007199254740992)\<rfloor> = 600000000
   \<and> \<lfloor>1000000000 * (5404319552844595 / 9007199254740992) :: rat\<rfloor> = 599999999"
  by (simp add: number_defs)

lemma resolveLimit_rounded:
  "resolveLimit 5638656000 (Some (binary64 (7 / 10))) = Some 3947059199
   \<and> resolveLimit 1000000000 (Some (binary64 (6 / 10))) = Some 600000000"
proof -
  have a: "binary64 (7 / 10) = 3152519739159347 / 4503599627370496"
    and b: "binary64 (6 / 10) = 5404319552844595 / 9007199254740992"
    using nearest_doubles by blast+
  show ?thesis
    unfolding a b using multiply_below multiply_rounds_up by (simp add: resolveLimit_def)
qed

subsection \<open>The worker of the scenarios\<close>

lemmas prim_defs =
  log_def kill_def isConnected_def childSend_def fork_def clearTimeout_def settle_def
  andThen_def

lemma newWorker_idleWorker:
  "newWorker exampleOptions 1000000000 exampleGlobals = Returned () idleWorker"
  by (simp add: newWorker_def initialize_def killConnected_def warnNotSilent_def isSilent_def
      wireStreams_def countRetry_def ready_def idleWorker_def exampleOptions_def prim_defs
      truthyLimit_def increment_def exceeds_def addStream_def Let_def)

lemma send_busyWorker:
  "send (CHILD_MESSAGE_CALL ''x'') 1 2 3 idleWorker = Returned () busyWorker"
  by (simp add: send_def busyWorker_def idleWorker_def prim_defs Let_def)

subsection \<open>The blocks of initialize\<close>

text \<open>
  Outside the three terminal states \<open>initialize\<close> leaves \<open>respawned w\<close>, made ready,
  when the retry limit is not exceeded; when it is, the completion callback is called
  with the error of the limit first, or the call throws when no callback is installed.
\<close>

lemma andThen_Returned [simp]: "andThen (Returned r w) f = f r w"
  by (simp add: andThen_def)

lemma andThen_Threw [simp]: "andThen (Threw e w) f = Threw e w"
  by (simp add: andThen_def)

lemma killConnected_eq: "killConnected w = w\<lparr>trace := trace w @ killOld w\<rparr>"
proof (cases "child w")
  case None
  then show ?thesis by (simp add: killConnected_def killOld_def)
next
  case (Some h)
  then show ?thesis
    by (cases "isConnected h w") (simp_all add: killConnected_def killOld_def kill_def log_def)
qed

lemma isSilent_trace [simp]: "isSilent (w\<lparr>trace := x\<rparr>) = isSilent w"
  and isSilent_state [simp]: "isSilent (w\<lparr>state := y\<rparr>) = isSilent w"
  and isSilent_stderrBuffer [simp]: "isSilent (w\<lparr>stderrBuffer := z\<rparr>) = isSilent w"
  and isSilent_children [simp]: "isSilent (w\<lparr>children := c\<rparr>) = isSilent w"
  and isSilent_child [simp]: "isSilent (w\<lparr>child := d\<rparr>) = isSilent w"
  by (simp_all add: isSilent_def)

lemma warnEvents_frame [simp]:
  "warnEvents (w\<lparr>trace := x\<rparr>) = warnEvents w"
  "warnEvents (w\<lparr>state := y\<rparr>) = warnEvents w"
  by (simp_all add: warnEvents_def)

lemma warnNotSilent_eq: "warnNotSilent w = w\<lparr>trace := trace w @ warnEvents w\<rparr>"
  by (cases "isSilent w") (simp_all add: warnNotSilent_def warnEvents_def log_def)

lemma forked_eq:
  "wireStreams (fork ((warnNotSilent ((killConnected w)\<lparr>state := STARTING\<rparr>))\<lparr>stderrBuffer := []\<rparr>))
     = forked w"
  by (cases "isSilent w")
    (simp_all add: killConnected_eq warnNotSilent_eq wireStreams_def fork_def log_def
      forked_def Let_def)

lemma initialize_spawned:
  assumes "\<not> terminal w"
  shows "initialize w = andThen (countRetry (spawned w)) (\<lambda>_ w5. Returned () (ready w5))"
proof -
  from assms have nt: "\<not> (state w = OUT_OF_MEMORY \<or> state w = SHUTTING_DOWN \<or> state w = SHUT_DOWN)"
    by (simp add: terminal_def)
  have c: "child (forked w) = Some (length (children w))" and o: "options (forked w) = options w"
    by (simp_all add: forked_def)
  show ?thesis
    using nt by (simp add: initialize_def Let_def forked_eq childSend_def c o spawned_def initMessage_def)
qed

lemma isConnected_request [simp]: "isConnected h (w\<lparr>request := x\<rparr>) = isConnected h w"
  by (simp add: isConnected_def)

lemma callOnProcessEnd_completed:
  assumes "onProcessEnd w = Some cb" "child w = Some h"
  shows "callOnProcessEnd e r w = Returned () (completed cb h e r w)"
proof (cases "truthyLimit (childIdleMemoryUsageLimit w)")
  case limit: True
  show ?thesis
  proof (cases "isConnected h w")
    case conn: True
    show ?thesis
    proof (cases "request w")
      case None
      with assms limit conn show ?thesis
        by (simp add: callOnProcessEnd_def completed_def checks_def log_def Let_def)
    next
      case (Some a)
      with assms limit conn show ?thesis
        by (simp add: callOnProcessEnd_def completed_def checks_def checkMemoryUsage_def
            childSend_def log_def Let_def)
    qed
  next
    case False
    with assms limit show ?thesis
      by (simp add: callOnProcessEnd_def completed_def checks_def log_def Let_def)
  qed
next
  case False
  with assms show ?thesis
    by (simp add: callOnProcessEnd_def completed_def checks_def log_def Let_def)
qed

lemma callOnProcessEnd_undefined:
  "onProcessEnd w = None \<Longrightarrow>
   callOnProcessEnd e r w = Threw (TypeError ''this._onProcessEnd is not a function'') w"
  by (simp add: callOnProcessEnd_def)

lemma clientError_retry:
  "clientError globals ''Error'' (retryMessage r) generatedStack (VObj [(''type'', ''WorkerError'')])
     = Inr (retryLimitError r)"
  by (simp add: clientError_def construct_def retryLimitError_def setProp_def newError_def)

lemma countRetry_within:
  "\<not> exceeds (increment (retries w)) (maxRetries (options w)) \<Longrightarrow>
   countRetry w = Returned () (w\<lparr>retries := increment (retries w)\<rparr>)"
  by (simp add: countRetry_def Let_def)

lemma countRetry_exceeded:
  assumes "exceeds (increment (retries w)) (maxRetries (options w))"
      and "onProcessEnd w = Some cb" "child w = Some h"
  shows "countRetry w =
     Returned ()
       ((completed cb h (retryLimitError (increment (retries w))) None
           (w\<lparr>retries := increment (retries w)\<rparr>))\<lparr>request := None\<rparr>)"
  using assms
  by (simp add: countRetry_def Let_def onMessage_def clientError_retry
      callOnProcessEnd_completed [where cb = cb and h = h])

lemma countRetry_undefined:
  assumes "exceeds (increment (retries w)) (maxRetries (options w))"
      and "onProcessEnd w = None"
  shows "countRetry w =
     Threw (TypeError ''this._onProcessEnd is not a function'') (w\<lparr>retries := increment (retries w)\<rparr>)"
  using assms
  by (simp add: countRetry_def Let_def onMessage_def clientError_retry
      callOnProcessEnd_undefined)

lemmas spawned_defs = spawned_def forked_def log_def

lemma spawned_fields [simp]:
  "child (spawned w) = Some (length (children w))"
  "children (spawned w) = children w @ [True]"
  "retries (spawned w) = retries w"
  "request (spawned w) = request w"
  "options (spawned w) = options w"
  "onProcessEnd (spawned w) = onProcessEnd w"
  "state (spawned w) = STARTING"
  "timers (spawned w) = timers w"
  "now (spawned w) = now w"
  "nextTimer (spawned w) = nextTimer w"
  "resolveWorkerReady (spawned w) = resolveWorkerReady w"
  "childIdleMemoryUsageLimit (spawned w) = childIdleMemoryUsageLimit w"
  "memoryUsageCheck (spawned w) = memoryUsageCheck w"
  "stderrBuffer (spawned w) = []"
  "trace (spawned w) = trace w @ killOld w @ warnEvents w
      @ [Fork (length (children w)) (workerId (options w) + 1),
         Send (length (children w)) (initMessage w)]"
  by (simp_all add: spawned_defs)

lemma initialize_within:
  assumes "\<not> terminal w" "\<not> exceeds (increment (retries w)) (maxRetries (options w))"
  shows "initialize w = Returned () (ready (respawned w))"
  using assms by (simp add: initialize_spawned countRetry_within respawned_def)

lemma initialize_exceeded:
  assumes "\<not> terminal w" "exceeds (increment (retries w)) (maxRetries (options w))"
      and "onProcessEnd w = Some cb"
  shows "initialize w =
     Returned ()
       (ready ((completed cb (length (children w)) (retryLimitError (increment (retries w))) None
                  (respawned w))\<lparr>request := None\<rparr>))"
  using assms
  by (simp add: initialize_spawned respawned_def
      countRetry_exceeded [where cb = cb and h = "length (children w)"])

lemma initialize_undefined:
  assumes "\<not> terminal w" "exceeds (increment (retries w)) (maxRetries (options w))"
      and "onProcessEnd w = None"
  shows "initialize w =
     Threw (TypeError ''this._onProcessEnd is not a function'') (respawned w)"
  using assms
  by (simp add: initialize_spawned respawned_def countRetry_undefined)

subsection \<open>Detection and the three ways of an exit\<close>

lemma detect_eq:
  "detectOutOfMemoryCrash w =
     (if oomSignature w \<and> (state w = OK \<or> state w = STARTING)
      then w\<lparr>state := OUT_OF_MEMORY\<rparr> else w)"
  by (simp add: detectOutOfMemoryCrash_def oomSignature_def Let_def)

lemma detect_flagged:
  assumes "oomSignature w \<and> (state w = OK \<or> state w = STARTING)"
  shows "detectOutOfMemoryCrash w = w\<lparr>state := OUT_OF_MEMORY\<rparr>"
  by (simp only: detect_eq if_P [OF assms])

lemma detect_unchanged:
  assumes "\<not> (oomSignature w \<and> (state w = OK \<or> state w = STARTING))"
  shows "detectOutOfMemoryCrash w = w"
  by (simp only: detect_eq if_not_P [OF assms])

lemma oomSignature_flags [simp]:
  "oomSignature (w\<lparr>workerReadyPromise := a, resolveWorkerReady := b\<rparr>) = oomSignature w"
  by (simp add: oomSignature_def)

lemma exiting_unchanged:
  assumes "state (detectOutOfMemoryCrash w) \<noteq> OUT_OF_MEMORY"
  shows "exiting w = w\<lparr>workerReadyPromise := False, resolveWorkerReady := False\<rparr>"
proof (cases "oomSignature w \<and> (state w = OK \<or> state w = STARTING)")
  case True
  then have "detectOutOfMemoryCrash w = w\<lparr>state := OUT_OF_MEMORY\<rparr>"
    by (simp add: detect_flagged)
  with assms show ?thesis by simp
next
  case False
  then show ?thesis by (simp add: exiting_def detect_unchanged)
qed

lemma state_unflagged:
  assumes "state (detectOutOfMemoryCrash w) \<noteq> OUT_OF_MEMORY"
  shows "state w \<noteq> OUT_OF_MEMORY"
proof
  assume "state w = OUT_OF_MEMORY"
  then have "detectOutOfMemoryCrash w = w" by (simp add: detect_unchanged)
  with assms \<open>state w = OUT_OF_MEMORY\<close> show False by simp
qed

lemma onExit_exiting:
  "onExit exitCode w =
     (if exitCode \<noteq> Some 0 \<and> state (exiting w) = OUT_OF_MEMORY
      then andThen (callOnProcessEnd (Err outOfMemoryError) None (exiting w))
             (\<lambda>_ w2. Returned () (shutdown w2))
      else if (abnormal exitCode \<and> state (exiting w) \<noteq> SHUTTING_DOWN)
              \<or> state (exiting w) = RESTARTING
      then andThen (initialize ((exiting w)\<lparr>state := RESTARTING\<rparr>))
             (\<lambda>_ w2. case request w2 of None \<Rightarrow> Returned () w2 | Some r \<Rightarrow> childSend r w2)
      else Returned () (shutdown (exiting w)))"
  by (simp add: onExit_def exiting_def Let_def)

lemma onExit_respawn:
  assumes "\<not> (exitCode \<noteq> Some 0 \<and> state (exiting w) = OUT_OF_MEMORY)"
      and "(abnormal exitCode \<and> state (exiting w) \<noteq> SHUTTING_DOWN) \<or> state (exiting w) = RESTARTING"
  shows "onExit exitCode w =
     andThen (initialize ((exiting w)\<lparr>state := RESTARTING\<rparr>))
       (\<lambda>_ w2. case request w2 of None \<Rightarrow> Returned () w2 | Some r \<Rightarrow> childSend r w2)"
  by (simp only: onExit_exiting if_not_P [OF assms(1)] if_P [OF assms(2)])

lemma onExit_outOfMemory:
  assumes "exitCode \<noteq> Some 0 \<and> state (exiting w) = OUT_OF_MEMORY"
  shows "onExit exitCode w =
     andThen (callOnProcessEnd (Err outOfMemoryError) None (exiting w))
       (\<lambda>_ w2. Returned () (shutdown w2))"
  by (simp only: onExit_exiting if_P [OF assms])

lemma onExit_shutdown:
  assumes "\<not> (exitCode \<noteq> Some 0 \<and> state (exiting w) = OUT_OF_MEMORY)"
      and "\<not> ((abnormal exitCode \<and> state (exiting w) \<noteq> SHUTTING_DOWN) \<or> state (exiting w) = RESTARTING)"
  shows "onExit exitCode w = Returned () (shutdown (exiting w))"
  by (simp only: onExit_exiting if_not_P [OF assms(1)] if_not_P [OF assms(2)])

lemma ready_fields [simp]:
  "state (ready w) = OK"
  "child (ready w) = child w"
  "children (ready w) = children w"
  "retries (ready w) = retries w"
  "request (ready w) = request w"
  "options (ready w) = options w"
  "onProcessEnd (ready w) = onProcessEnd w"
  "timers (ready w) = timers w"
  "now (ready w) = now w"
  "nextTimer (ready w) = nextTimer w"
  "memoryUsageCheck (ready w) = memoryUsageCheck w"
  "stderrBuffer (ready w) = stderrBuffer w"
  "trace (ready w) = trace w @ (if resolveWorkerReady w then [ResolveWorkerReady] else [])"
  by (simp_all add: ready_def log_def Let_def)

lemma respawned_fields [simp]:
  "child (respawned w) = Some (length (children w))"
  "children (respawned w) = children w @ [True]"
  "retries (respawned w) = increment (retries w)"
  "request (respawned w) = request w"
  "options (respawned w) = options w"
  "onProcessEnd (respawned w) = onProcessEnd w"
  "state (respawned w) = STARTING"
  "timers (respawned w) = timers w"
  "now (respawned w) = now w"
  "nextTimer (respawned w) = nextTimer w"
  "resolveWorkerReady (respawned w) = resolveWorkerReady w"
  "childIdleMemoryUsageLimit (respawned w) = childIdleMemoryUsageLimit w"
  "memoryUsageCheck (respawned w) = memoryUsageCheck w"
  "stderrBuffer (respawned w) = []"
  "trace (respawned w) = trace w @ killOld w @ warnEvents w
      @ [Fork (length (children w)) (workerId (options w) + 1),
         Send (length (children w)) (initMessage w)]"
  by (simp_all add: respawned_def)

lemma isConnected_respawned [simp]: "isConnected (length (children w)) (respawned w)"
  by (simp add: isConnected_def)

lemma completed_fields [simp]:
  "child (completed cb h e r w) = child w"
  "children (completed cb h e r w) = children w"
  "retries (completed cb h e r w) = retries w"
  "request (completed cb h e r w) = None"
  "options (completed cb h e r w) = options w"
  "onProcessEnd (completed cb h e r w) = onProcessEnd w"
  "state (completed cb h e r w) = state w"
  "timers (completed cb h e r w) = timers w"
  "now (completed cb h e r w) = now w"
  "nextTimer (completed cb h e r w) = nextTimer w"
  "resolveWorkerReady (completed cb h e r w) = resolveWorkerReady w"
  "stderrBuffer (completed cb h e r w) = stderrBuffer w"
  "trace (completed cb h e r w) =
     trace w @ (if checks h w then [Send h CHILD_MESSAGE_MEM_USAGE] else [])
       @ [CallOnProcessEnd cb e r None]"
  by (simp_all add: completed_def)

lemma killOld_frame [simp]:
  "killOld (w\<lparr>workerReadyPromise := a\<rparr>) = killOld w"
  "killOld (w\<lparr>resolveWorkerReady := b\<rparr>) = killOld w"
  "killOld (w\<lparr>state := s\<rparr>) = killOld w"
  by (simp_all add: killOld_def isConnected_def split: option.splits)

lemma warnEvents_flags [simp]:
  "warnEvents (w\<lparr>workerReadyPromise := a\<rparr>) = warnEvents w"
  "warnEvents (w\<lparr>resolveWorkerReady := b\<rparr>) = warnEvents w"
  by (simp_all add: warnEvents_def isSilent_def)

lemma initMessage_frame [simp]:
  "initMessage (w\<lparr>workerReadyPromise := a\<rparr>) = initMessage w"
  "initMessage (w\<lparr>resolveWorkerReady := b\<rparr>) = initMessage w"
  "initMessage (w\<lparr>state := s\<rparr>) = initMessage w"
  by (simp_all add: initMessage_def)

subsection \<open>Four crashes in a row\<close>

text \<open>
  The scenario of the retry limit: with at most three retries, four exits with code 1
  while the request \<open>x\<close> is pending give four forks and one completion, the client
  error of the limit; the request is sent to the first three new children and not to
  the fourth, and no success is ever reported.
\<close>

lemmas method_defs =
  onExit_def detectOutOfMemoryCrash_def abnormal_def initialize_def killConnected_def
  warnNotSilent_def isSilent_def wireStreams_def countRetry_def ready_def onMessage_def
  callOnProcessEnd_def checkMemoryUsage_def clientError_def construct_def setProp_def newError_def
  retryLimitError_def shutdown_def truthyLimit_def increment_def exceeds_def addStream_def
  SIGTERM_EXIT_CODE_def SIGKILL_EXIT_CODE_def SIGNAL_BASE_EXIT_CODE_def Let_def prim_defs

lemmas worker_defs = busyWorker_def idleWorker_def exampleOptions_def

lemma crash1: "onExit (Some 1) busyWorker = Returned () crashed1"
  by (simp add: crashed1_def worker_defs method_defs)

lemma crash2: "onExit (Some 1) crashed1 = Returned () crashed2"
  by (simp add: crashed2_def crashed1_def worker_defs method_defs)

lemma crash3: "onExit (Some 1) crashed2 = Returned () crashed3"
  by (simp add: crashed3_def crashed2_def crashed1_def worker_defs method_defs)

lemma crash4: "onExit (Some 1) crashed3 = Returned () crashed4"
  by (simp add: crashed4_def crashed3_def crashed2_def crashed1_def worker_defs method_defs)

lemma retry_limit_scenario:
  "run [Exit (Some 1), Exit (Some 1), Exit (Some 1), Exit (Some 1)] busyWorker
     = Returned () crashed4
   \<and> maxRetries (options busyWorker) = 3
   \<and> [e \<leftarrow> newEvents busyWorker crashed4. \<exists>h i. e = Fork h i]
       = [Fork 1 1, Fork 2 1, Fork 3 1, Fork 4 1]
   \<and> [e \<leftarrow> newEvents busyWorker crashed4. \<exists>cb a r p. e = CallOnProcessEnd cb a r p]
       = [CallOnProcessEnd 2 (retryLimitError (Some 4)) None None]
   \<and> request crashed4 = None"
proof -
  have "run [Exit (Some 1), Exit (Some 1), Exit (Some 1), Exit (Some 1)] busyWorker
          = Returned () crashed4"
    by (simp add: deliver_def crash1 crash2 crash3 crash4)
  then show ?thesis
    by (simp add: newEvents_def crashed4_def crashed3_def crashed2_def crashed1_def worker_defs)
qed

subsection \<open>Kills and usage reports\<close>

lemma killChild_killing:
  "child w = Some h \<Longrightarrow> killChild w = Returned (nextTimer w) (killing h w)"
  by (simp add: killChild_def killing_def kill_def log_def Let_def)

lemma killing_fields [simp]:
  "state (killing h w) = state w"
  "child (killing h w) = child w"
  "children (killing h w) = children w"
  "retries (killing h w) = retries w"
  "request (killing h w) = request w"
  "options (killing h w) = options w"
  "onProcessEnd (killing h w) = onProcessEnd w"
  "memoryUsageCheck (killing h w) = memoryUsageCheck w"
  "exitResolved (killing h w) = exitResolved w"
  "exitThen (killing h w) = exitThen w"
  "stderrBuffer (killing h w) = stderrBuffer w"
  "promises (killing h w) = promises w"
  "now (killing h w) = now w"
  "nextTimer (killing h w) = nextTimer w + 1"
  "timers (killing h w) = timers w @ [(nextTimer w, now w + SIGKILL_DELAY, h)]"
  "trace (killing h w) = trace w @ [Kill h SIGTERM]"
  by (simp_all add: killing_def)

lemma onMessage_memUsage:
  "onMessage (PARENT_MESSAGE_MEM_USAGE u) w = performRestartIfRequired (reported u w)"
  by (cases "resolveMemoryUsage w") (simp_all add: onMessage_def reported_def Let_def)

lemma settle_fields [simp]:
  "state (settle p v w) = state w"
  "child (settle p v w) = child w"
  "children (settle p v w) = children w"
  "retries (settle p v w) = retries w"
  "request (settle p v w) = request w"
  "options (settle p v w) = options w"
  "onProcessEnd (settle p v w) = onProcessEnd w"
  "memoryUsageCheck (settle p v w) = memoryUsageCheck w"
  "childIdleMemoryUsage (settle p v w) = childIdleMemoryUsage w"
  "childIdleMemoryUsageLimit (settle p v w) = childIdleMemoryUsageLimit w"
  "totalmem (settle p v w) = totalmem w"
  "now (settle p v w) = now w"
  "nextTimer (settle p v w) = nextTimer w"
  "timers (settle p v w) = timers w"
  "trace (settle p v w) = trace w"
  by (simp_all add: settle_def)

lemma reported_fields [simp]:
  "state (reported u w) = state w"
  "child (reported u w) = child w"
  "children (reported u w) = children w"
  "retries (reported u w) = retries w"
  "request (reported u w) = request w"
  "options (reported u w) = options w"
  "onProcessEnd (reported u w) = onProcessEnd w"
  "memoryUsageCheck (reported u w) = memoryUsageCheck w"
  "childIdleMemoryUsage (reported u w) = Some u"
  "childIdleMemoryUsageLimit (reported u w) = childIdleMemoryUsageLimit w"
  "totalmem (reported u w) = totalmem w"
  "now (reported u w) = now w"
  "nextTimer (reported u w) = nextTimer w"
  "timers (reported u w) = timers w"
  "trace (reported u w) = trace w"
  by (cases "resolveMemoryUsage w"; simp add: reported_def)+

lemma performRestart_unchecked:
  "\<not> memoryUsageCheck w \<Longrightarrow> performRestartIfRequired w = Returned () w"
  by (simp add: performRestartIfRequired_def)

lemma performRestart_within:
  "memoryUsageCheck w \<Longrightarrow> \<not> restarts w \<Longrightarrow>
   performRestartIfRequired w = Returned () (w\<lparr>memoryUsageCheck := False\<rparr>)"
  by (simp add: performRestartIfRequired_def restarts_def Let_def)

lemma performRestart_exceeded:
  "memoryUsageCheck w \<Longrightarrow> restarts w \<Longrightarrow> child w = Some h \<Longrightarrow>
   performRestartIfRequired w
     = Returned () (killing h (w\<lparr>memoryUsageCheck := False, state := RESTARTING\<rparr>))"
  by (simp add: performRestartIfRequired_def restarts_def Let_def killChild_killing)

lemma restarts_reported:
  "restarts (reported u w)
     = exceedsLimit (resolveLimit (totalmem w) (childIdleMemoryUsageLimit w)) (Some u)"
  by (simp add: restarts_def)

lemma resolveLimit_Some:
  "L \<noteq> 0 \<Longrightarrow>
   resolveLimit mem (Some L)
     = Some (if 0 < L \<and> L \<le> 1 then \<lfloor>multiply (of_nat mem) L\<rfloor> else \<lfloor>L\<rfloor>)"
  by (simp add: resolveLimit_def)


lemma report_restartingWorker:
  "onMessage (PARENT_MESSAGE_MEM_USAGE 600000000) checkingWorker = Returned () restartingWorker"
  by (simp add: restartingWorker_def checkingWorker_def worker_defs method_defs
      performRestartIfRequired_def resolveLimit_def exceedsLimit_def killChild_def
      SIGKILL_DELAY_def multiply_half)

subsection \<open>The respawn\<close>

lemma respawn_fields:
  assumes "\<not> terminal v"
  shows "retries (stateOf (respawn v)) = increment (retries v)"
    and "child (stateOf (respawn v)) = Some (length (children v))"
    and "children (stateOf (respawn v)) = children v @ [True]"
    and "timers (stateOf (respawn v)) = timers v"
    and "now (stateOf (respawn v)) = now v"
    and "nextTimer (stateOf (respawn v)) = nextTimer v"
    and "options (stateOf (respawn v)) = options v"
    and "trace (stateOf (respawn v)) =
           trace v @ killOld v @ warnEvents v
             @ [Fork (length (children v)) (workerId (options v) + 1),
                Send (length (children v)) (initMessage v)]
             @ respawnTail v"
proof -
  consider
    (within) "\<not> exceeds (increment (retries v)) (maxRetries (options v))" "request v = None"
  | (resend) R where "\<not> exceeds (increment (retries v)) (maxRetries (options v))" "request v = Some R"
  | (undefined) "exceeds (increment (retries v)) (maxRetries (options v))" "onProcessEnd v = None"
  | (exceeded) cb where "exceeds (increment (retries v)) (maxRetries (options v))" "onProcessEnd v = Some cb"
    by (cases "request v"; cases "onProcessEnd v"; blast)
  then have "retries (stateOf (respawn v)) = increment (retries v)
     \<and> child (stateOf (respawn v)) = Some (length (children v))
     \<and> children (stateOf (respawn v)) = children v @ [True]
     \<and> timers (stateOf (respawn v)) = timers v
     \<and> now (stateOf (respawn v)) = now v
     \<and> nextTimer (stateOf (respawn v)) = nextTimer v
     \<and> options (stateOf (respawn v)) = options v
     \<and> trace (stateOf (respawn v)) =
           trace v @ killOld v @ warnEvents v
             @ [Fork (length (children v)) (workerId (options v) + 1),
                Send (length (children v)) (initMessage v)]
             @ respawnTail v"
  proof cases
    case within
    then have "respawn v = Returned () (ready (respawned v))"
      using assms by (simp add: respawn_def initialize_within)
    with within show ?thesis by (simp add: respawnTail_def)
  next
    case resend
    then have "respawn v = Returned () (log (Send (length (children v)) R) (ready (respawned v)))"
      using assms by (simp add: respawn_def initialize_within childSend_def)
    with resend show ?thesis by (simp add: respawnTail_def log_def)
  next
    case undefined
    then have "respawn v = Threw (TypeError ''this._onProcessEnd is not a function'') (respawned v)"
      using assms by (simp add: respawn_def initialize_undefined)
    with undefined show ?thesis by (simp add: respawnTail_def)
  next
    case exceeded
    then have "respawn v =
        Returned () (ready ((completed cb (length (children v))
           (retryLimitError (increment (retries v))) None (respawned v))\<lparr>request := None\<rparr>))"
      using assms by (simp add: respawn_def initialize_exceeded [where cb = cb])
    with exceeded show ?thesis by (simp add: respawnTail_def checks_def)
  qed
  then show "retries (stateOf (respawn v)) = increment (retries v)"
    and "child (stateOf (respawn v)) = Some (length (children v))"
    and "children (stateOf (respawn v)) = children v @ [True]"
    and "timers (stateOf (respawn v)) = timers v"
    and "now (stateOf (respawn v)) = now v"
    and "nextTimer (stateOf (respawn v)) = nextTimer v"
    and "options (stateOf (respawn v)) = options v"
    and "trace (stateOf (respawn v)) =
           trace v @ killOld v @ warnEvents v
             @ [Fork (length (children v)) (workerId (options v) + 1),
                Send (length (children v)) (initMessage v)]
             @ respawnTail v"
    by simp_all
qed

lemma onExit_restarting:
  assumes "state w = RESTARTING"
  shows "onExit exitCode w
     = respawn (w\<lparr>workerReadyPromise := False, resolveWorkerReady := False, state := RESTARTING\<rparr>)"
proof -
  have "state (detectOutOfMemoryCrash w) \<noteq> OUT_OF_MEMORY"
    using assms by (simp add: detect_eq)
  then have ex: "exiting w = w\<lparr>workerReadyPromise := False, resolveWorkerReady := False\<rparr>"
    by (rule exiting_unchanged)
  have a: "\<not> (exitCode \<noteq> Some 0 \<and> state (exiting w) = OUT_OF_MEMORY)"
    and b: "(abnormal exitCode \<and> state (exiting w) \<noteq> SHUTTING_DOWN) \<or> state (exiting w) = RESTARTING"
    using assms by (simp_all add: ex)
  show ?thesis
    using onExit_respawn [OF a b] by (simp add: ex respawn_def)
qed

lemma isFork_respawnTail: "filter isFork (respawnTail v) = []"
  by (simp add: respawnTail_def retryLimitError_def split: option.splits ChildMessage.splits)

lemma isFork_killOld: "filter isFork (killOld v) = []"
  by (simp add: killOld_def split: option.splits)

lemma isFork_warnEvents: "filter isFork (warnEvents v) = []"
  by (simp add: warnEvents_def)

lemma newEvents_append [simp]: "trace w' = trace w @ es \<Longrightarrow> newEvents w w' = es"
  by (simp add: newEvents_def)

subsection \<open>Shutdown and timers\<close>

lemma filter_cleared:
  "filter (\<lambda>(i, due, h). i \<notin> set ts) (filter (\<lambda>(i, due, h). i \<noteq> t) xs)
     = filter (\<lambda>(i, due, h). i \<notin> set (t # ts)) xs"
  by (induction xs) auto

lemma fold_clearTimeout:
  "fold clearTimeout ts w = w\<lparr>timers := filter (\<lambda>(i, due, h). i \<notin> set ts) (timers w)\<rparr>"
proof (induction ts arbitrary: w)
  case Nil
  show ?case by simp
next
  case (Cons t ts)
  have "fold clearTimeout (t # ts) w = fold clearTimeout ts (clearTimeout t w)"
    by simp
  also have "\<dots> = (clearTimeout t w)
      \<lparr>timers := filter (\<lambda>(i, due, h). i \<notin> set ts) (timers (clearTimeout t w))\<rparr>"
    by (rule Cons.IH)
  also have "\<dots> = w\<lparr>timers := filter (\<lambda>(i, due, h). i \<notin> set ts)
                                 (filter (\<lambda>(i, due, h). i \<noteq> t) (timers w))\<rparr>"
    by (simp add: clearTimeout_def del: filter_filter)
  also have "\<dots> = w\<lparr>timers := filter (\<lambda>(i, due, h). i \<notin> set (t # ts)) (timers w)\<rparr>"
    by (simp only: filter_cleared)
  finally show ?case .
qed

lemma shutdown_retired: "shutdown w = retired w"
  by (simp add: shutdown_def retired_def log_def Let_def fold_clearTimeout)

lemma retired_fields [simp]:
  "state (retired w) = state w"
  "child (retired w) = child w"
  "children (retired w) = children w"
  "retries (retired w) = retries w"
  "request (retired w) = request w"
  "options (retired w) = options w"
  "onProcessEnd (retired w) = onProcessEnd w"
  "exitResolved (retired w) = True"
  "exitThen (retired w) = []"
  "now (retired w) = now w"
  "nextTimer (retired w) = nextTimer w"
  "timers (retired w) = filter (\<lambda>(i, due, h). i \<notin> set (exitThen w)) (timers w)"
  "trace (retired w) = trace w @ [Shutdown]"
  by (simp_all add: retired_def)

lemma initialize_terminal: "terminal w \<Longrightarrow> initialize w = Returned () w"
  by (simp add: initialize_def terminal_def)

lemma stderr_restartingOomWorker:
  "stderrDataHandler (Some ''heap out of memory'') restartingWorker
     = Returned () restartingOomWorker"
  by (simp add: stderrDataHandler_def restartingOomWorker_def restartingWorker_def
      checkingWorker_def worker_defs detectOutOfMemoryCrash_def Let_def)

lemma elapse_idle:
  "timers w = [] \<Longrightarrow> elapse d w = w\<lparr>timers := [], now := now w + d\<rparr>"
  by (simp add: elapse_def Let_def)

lemma elapse_early:
  "timers w = [(t, due, h)] \<Longrightarrow> now w + d < due \<Longrightarrow>
   elapse d w = w\<lparr>timers := [(t, due, h)], now := now w + d\<rparr>"
  by (simp add: elapse_def Let_def)

lemma elapse_due:
  "timers w = [(t, due, h)] \<Longrightarrow> due \<le> now w + d \<Longrightarrow>
   elapse d w = w\<lparr>timers := [], now := now w + d, trace := trace w @ [Kill h SIGKILL]\<rparr>"
  by (simp add: elapse_def Let_def kill_def log_def)

lemma initialize_frame:
  assumes "\<not> terminal v"
  shows "child (stateOf (initialize v)) = Some (length (children v))
     \<and> timers (stateOf (initialize v)) = timers v
     \<and> now (stateOf (initialize v)) = now v"
proof (cases "exceeds (increment (retries v)) (maxRetries (options v))")
  case False
  with assms show ?thesis by (simp add: initialize_within)
next
  case True
  show ?thesis
  proof (cases "onProcessEnd v")
    case None
    with assms True show ?thesis by (simp add: initialize_undefined)
  next
    case (Some cb)
    with assms True show ?thesis by (simp add: initialize_exceeded [where cb = cb])
  qed
qed

lemma exiting_shuttingDown:
  "state w = SHUTTING_DOWN \<Longrightarrow>
   exiting w = w\<lparr>workerReadyPromise := False, resolveWorkerReady := False\<rparr>"
  by (rule exiting_unchanged) (simp add: detect_eq)

lemma onExit_shuttingDown:
  assumes "state w = SHUTTING_DOWN"
  shows "onExit exitCode w
     = Returned () (retired (w\<lparr>workerReadyPromise := False, resolveWorkerReady := False\<rparr>))"
proof -
  have ex: "exiting w = w\<lparr>workerReadyPromise := False, resolveWorkerReady := False\<rparr>"
    using assms by (rule exiting_shuttingDown)
  have a: "\<not> (exitCode \<noteq> Some 0 \<and> state (exiting w) = OUT_OF_MEMORY)"
    and b: "\<not> ((abnormal exitCode \<and> state (exiting w) \<noteq> SHUTTING_DOWN) \<or> state (exiting w) = RESTARTING)"
    using assms by (simp_all add: ex)
  show ?thesis
    using onExit_shutdown [OF a b] by (simp add: ex shutdown_retired)
qed

lemma forceExit_killing:
  assumes "child w = Some h" "\<not> exitResolved w"
  shows "forceExit w
     = Returned () ((killing h (w\<lparr>state := SHUTTING_DOWN\<rparr>))\<lparr>exitThen := exitThen w @ [nextTimer w]\<rparr>)"
  using assms by (simp add: forceExit_def killChild_killing)

subsection \<open>An exit with no request pending\<close>

lemma exiting_fields [simp]:
  "request (exiting w) = request w"
  "trace (exiting w) = trace w"
  "onProcessEnd (exiting w) = onProcessEnd w"
  "child (exiting w) = child w"
  "children (exiting w) = children w"
  "options (exiting w) = options w"
  "retries (exiting w) = retries w"
  "resolveWorkerReady (exiting w) = False"
  "childIdleMemoryUsageLimit (exiting w) = childIdleMemoryUsageLimit w"
  by (cases "oomSignature w \<and> (state w = OK \<or> state w = STARTING)";
      simp add: exiting_def detect_eq)+

lemma isCall_killOld: "filter isCall (killOld v) = []"
  by (simp add: killOld_def split: option.splits)

lemma isCall_warnEvents: "filter isCall (warnEvents v) = []"
  by (simp add: warnEvents_def)

lemma isCall_respawnTail: "request v = None \<Longrightarrow> filter isCall (respawnTail v) = []"
  by (simp add: respawnTail_def split: option.splits)

lemma idle_exit_sends_no_call:
  assumes "request w = None" "child w = Some h"
  shows "filter isCall (newEvents w (stateOf (onExit exitCode w))) = []"
proof -
  define x where "x = exiting w"
  have xf: "request x = None" "trace x = trace w" "child x = Some h"
    using assms by (simp_all add: x_def)
  consider
    (oom) "exitCode \<noteq> Some 0 \<and> state x = OUT_OF_MEMORY"
  | (restart) "\<not> (exitCode \<noteq> Some 0 \<and> state x = OUT_OF_MEMORY)"
      "(abnormal exitCode \<and> state x \<noteq> SHUTTING_DOWN) \<or> state x = RESTARTING"
  | (final) "\<not> (exitCode \<noteq> Some 0 \<and> state x = OUT_OF_MEMORY)"
      "\<not> ((abnormal exitCode \<and> state x \<noteq> SHUTTING_DOWN) \<or> state x = RESTARTING)"
    by blast
  then show ?thesis
  proof cases
    case oom
    then have step: "onExit exitCode w
        = andThen (callOnProcessEnd (Err outOfMemoryError) None x) (\<lambda>_ w2. Returned () (shutdown w2))"
      unfolding x_def by (rule onExit_outOfMemory)
    show ?thesis
    proof (cases "onProcessEnd x")
      case None
      then show ?thesis
        by (simp add: step callOnProcessEnd_undefined newEvents_def xf)
    next
      case (Some cb)
      have "trace (stateOf (onExit exitCode w))
          = trace w @ [CallOnProcessEnd cb (Err outOfMemoryError) None None, Shutdown]"
        by (simp add: step callOnProcessEnd_completed [OF Some xf(3)] shutdown_retired
            checks_def xf)
      then show ?thesis by (simp add: newEvents_def)
    qed
  next
    case restart
    define v where "v = x\<lparr>state := RESTARTING\<rparr>"
    have step: "onExit exitCode w = respawn v"
      using onExit_respawn [of exitCode w] restart by (simp add: x_def v_def respawn_def)
    have nt: "\<not> terminal v" by (simp add: terminal_def v_def)
    have vf: "request v = None" "trace v = trace w" by (simp_all add: v_def xf)
    have "trace (stateOf (onExit exitCode w))
        = trace w @ (killOld v @ warnEvents v
             @ [Fork (length (children v)) (workerId (options v) + 1),
                Send (length (children v)) (initMessage v)]
             @ respawnTail v)"
      using respawn_fields(8) [OF nt] by (simp add: step vf)
    then show ?thesis
      by (simp add: newEvents_def isCall_killOld isCall_warnEvents
          isCall_respawnTail [OF vf(1)] initMessage_def)
  next
    case final
    then have "onExit exitCode w = Returned () (shutdown x)"
      unfolding x_def by (rule onExit_shutdown)
    then show ?thesis by (simp add: shutdown_retired newEvents_def xf)
  qed
qed

subsection \<open>Workers that can arise\<close>

lemma run_append: "run (xs @ ys) w = andThen (run xs w) (\<lambda>_. run ys)"
  by (induction xs arbitrary: w) (simp_all add: andThen_def split: outcome.splits)

lemma kept_installed: "installed w \<Longrightarrow> kept w w' \<Longrightarrow> installed w'"
  by (auto simp add: installed_def kept_def)

lemma kept_refl: "child w \<noteq> None \<Longrightarrow> kept w w"
  by (simp add: kept_def)

lemma kept_trans: "kept w w' \<Longrightarrow> kept w' w'' \<Longrightarrow> kept w w''"
  by (auto simp add: kept_def)

lemma increment_None [simp]: "(increment r = None) = (r = None)"
  by (cases r) (simp_all add: increment_def)

lemma callOnProcessEnd_kept:
  assumes "child w = Some h"
  shows "kept w (stateOf (callOnProcessEnd e r w))"
proof (cases "onProcessEnd w")
  case None
  with assms show ?thesis by (simp add: callOnProcessEnd_undefined kept_def)
next
  case (Some cb)
  then show ?thesis
    using assms by (simp add: callOnProcessEnd_completed [OF Some assms] kept_def)
qed

lemma retired_kept: "child w \<noteq> None \<Longrightarrow> kept w (retired w)"
  by (simp add: kept_def)

lemma killing_kept: "child w \<noteq> None \<Longrightarrow> kept w (killing h w)"
  by (simp add: kept_def)

lemma exiting_kept: "child w \<noteq> None \<Longrightarrow> kept w (exiting w)"
  by (simp add: kept_def)

lemma initialize_kept:
  assumes "child w \<noteq> None"
  shows "kept w (stateOf (initialize w))"
proof (cases "terminal w")
  case True
  with assms show ?thesis by (simp add: initialize_terminal kept_def)
next
  case nt: False
  show ?thesis
  proof (cases "exceeds (increment (retries w)) (maxRetries (options w))")
    case False
    with nt show ?thesis by (simp add: initialize_within kept_def)
  next
    case True
    show ?thesis
    proof (cases "onProcessEnd w")
      case None
      with nt True show ?thesis by (simp add: initialize_undefined kept_def)
    next
      case (Some cb)
      with nt True show ?thesis by (simp add: initialize_exceeded [where cb = cb] kept_def)
    qed
  qed
qed

lemma respawn_kept:
  assumes "child w \<noteq> None"
  shows "kept w (stateOf (respawn w))"
proof -
  define s where "s = stateOf (initialize w)"
  have k: "kept w s" using assms by (simp add: s_def initialize_kept)
  then obtain h where h: "child s = Some h" by (auto simp add: kept_def)
  show ?thesis
  proof (cases "initialize w")
    case (Threw e x)
    then show ?thesis using k by (simp add: respawn_def s_def)
  next
    case (Returned u x)
    then have x: "x = s" by (simp add: s_def)
    show ?thesis
    proof (cases "request s")
      case None
      then show ?thesis using k Returned x by (simp add: respawn_def)
    next
      case (Some R)
      then have "respawn w = Returned () (log (Send h R) s)"
        using Returned x h by (simp add: respawn_def childSend_def)
      then show ?thesis using k by (simp add: kept_def log_def)
    qed
  qed
qed

lemma onExit_kept:
  assumes "child w = Some h"
  shows "kept w (stateOf (onExit exitCode w))"
proof -
  define x where "x = exiting w"
  have xk: "kept w x" and xc: "child x = Some h"
    using assms by (simp_all add: x_def kept_def)
  consider
    (oom) "exitCode \<noteq> Some 0 \<and> state x = OUT_OF_MEMORY"
  | (restart) "\<not> (exitCode \<noteq> Some 0 \<and> state x = OUT_OF_MEMORY)"
      "(abnormal exitCode \<and> state x \<noteq> SHUTTING_DOWN) \<or> state x = RESTARTING"
  | (final) "\<not> (exitCode \<noteq> Some 0 \<and> state x = OUT_OF_MEMORY)"
      "\<not> ((abnormal exitCode \<and> state x \<noteq> SHUTTING_DOWN) \<or> state x = RESTARTING)"
    by blast
  then show ?thesis
  proof cases
    case oom
    then have step: "onExit exitCode w
        = andThen (callOnProcessEnd (Err outOfMemoryError) None x) (\<lambda>_ w2. Returned () (shutdown w2))"
      unfolding x_def by (rule onExit_outOfMemory)
    have c: "kept x (stateOf (callOnProcessEnd (Err outOfMemoryError) None x))"
      using xc by (rule callOnProcessEnd_kept)
    show ?thesis
    proof (cases "callOnProcessEnd (Err outOfMemoryError) None x")
      case (Threw e y)
      with c xk show ?thesis by (simp add: step kept_trans [OF xk])
    next
      case (Returned u y)
      with c have "kept x y" by simp
      then have "kept x (retired y)" by (simp add: kept_def)
      with Returned show ?thesis by (simp add: step shutdown_retired kept_trans [OF xk])
    qed
  next
    case restart
    define v where "v = x\<lparr>state := RESTARTING\<rparr>"
    have step: "onExit exitCode w = respawn v"
      using onExit_respawn [of exitCode w] restart by (simp add: x_def v_def respawn_def)
    have "kept x v" using xc by (simp add: v_def kept_def)
    moreover have "kept v (stateOf (respawn v))"
      by (rule respawn_kept) (simp add: v_def xc)
    ultimately show ?thesis
      using xk by (simp add: step) (blast intro: kept_trans)
  next
    case final
    then have "onExit exitCode w = Returned () (shutdown x)"
      unfolding x_def by (rule onExit_shutdown)
    moreover have "kept x (retired x)" using xc by (simp add: kept_def)
    ultimately show ?thesis
      using xk by (simp add: shutdown_retired) (blast intro: kept_trans)
  qed
qed

lemma reported_kept: "child w \<noteq> None \<Longrightarrow> kept w (reported u w)"
  by (simp add: kept_def)

lemma performRestart_kept:
  assumes "child w = Some h"
  shows "kept w (stateOf (performRestartIfRequired w))"
proof (cases "memoryUsageCheck w")
  case False
  with assms show ?thesis by (simp add: performRestart_unchecked kept_def)
next
  case chk: True
  show ?thesis
  proof (cases "restarts w")
    case True
    with chk assms show ?thesis by (simp add: performRestart_exceeded kept_def)
  next
    case False
    with chk assms show ?thesis by (simp add: performRestart_within kept_def)
  qed
qed

lemma onMessage_kept:
  assumes "child w = Some h"
  shows "kept w (stateOf (onMessage response w))"
proof (cases response)
  case (PARENT_MESSAGE_OK result)
  then show ?thesis using callOnProcessEnd_kept [OF assms] by (simp add: onMessage_def)
next
  case (PARENT_MESSAGE_CLIENT_ERROR name msg stack extra)
  then show ?thesis using callOnProcessEnd_kept [OF assms] kept_refl [of w] assms
    by (simp add: onMessage_def split: sum.splits)
next
  case (PARENT_MESSAGE_SETUP_ERROR name msg stack)
  then show ?thesis using callOnProcessEnd_kept [OF assms] by (simp add: onMessage_def)
next
  case (PARENT_MESSAGE_CUSTOM payload)
  then show ?thesis
    using assms by (cases "onCustomMessage w") (simp_all add: onMessage_def kept_def log_def)
next
  case (PARENT_MESSAGE_MEM_USAGE u)
  have "kept w (reported u w)" using assms by (simp add: kept_def)
  moreover have "kept (reported u w) (stateOf (performRestartIfRequired (reported u w)))"
    by (rule performRestart_kept [where h = h]) (simp add: assms)
  ultimately show ?thesis
    using PARENT_MESSAGE_MEM_USAGE by (simp add: onMessage_memUsage) (blast intro: kept_trans)
next
  case (PARENT_MESSAGE_UNKNOWN t)
  then show ?thesis using assms by (simp add: onMessage_def kept_def)
qed

lemma detect_kept: "child w \<noteq> None \<Longrightarrow> kept w (detectOutOfMemoryCrash w)"
  by (cases "oomSignature w \<and> (state w = OK \<or> state w = STARTING)")
    (simp_all add: detect_eq kept_def)

lemma detect_child [simp]: "child (detectOutOfMemoryCrash w) = child w"
  by (cases "oomSignature w \<and> (state w = OK \<or> state w = STARTING)")
    (simp_all add: detect_eq)

lemma onDisconnect_kept:
  assumes "child w = Some h"
  shows "kept w (stateOf (onDisconnect w))"
proof -
  define x where "x = exiting w"
  have xk: "kept w x" and xc: "child x = Some h"
    using assms by (simp_all add: x_def kept_def)
  show ?thesis
  proof (cases "state x = OUT_OF_MEMORY")
    case True
    then have "onDisconnect w = Returned () (retired (killing h x))"
      using xc by (simp add: onDisconnect_def x_def exiting_def Let_def killChild_killing
          shutdown_retired)
    moreover have "kept x (retired (killing h x))" using xc by (simp add: kept_def)
    ultimately show ?thesis using xk by simp (blast intro: kept_trans)
  next
    case False
    then have "onDisconnect w = Returned () x"
      by (simp add: onDisconnect_def x_def exiting_def Let_def)
    then show ?thesis using xk by simp
  qed
qed

lemma stderrDataHandler_kept:
  assumes "child w = Some h"
  shows "kept w (stateOf (stderrDataHandler chunk w))"
proof -
  define b where "b = (case chunk of None \<Rightarrow> w | Some c \<Rightarrow> w\<lparr>stderrBuffer := stderrBuffer w @ [c]\<rparr>)"
  define x where "x = detectOutOfMemoryCrash b"
  have bk: "kept w b" and bc: "child b = Some h"
    using assms by (cases chunk; simp add: b_def kept_def)+
  have xk: "kept b x" and xc: "child x = Some h"
    using bc by (simp_all add: x_def detect_kept)
  define y where "y = x\<lparr>workerReadyPromise := False, resolveWorkerReady := False\<rparr>"
  have yk: "kept x y" and yc: "child y = Some h"
    using xc by (simp_all add: y_def kept_def)
  show ?thesis
  proof (cases "state x = OUT_OF_MEMORY")
    case True
    then have "stderrDataHandler chunk w = Returned () (retired (killing h y))"
      using yc by (simp add: stderrDataHandler_def b_def [symmetric] x_def [symmetric] Let_def
          y_def [symmetric] killChild_killing shutdown_retired)
    moreover have "kept y (retired (killing h y))" using yc by (simp add: kept_def)
    ultimately show ?thesis using bk xk yk by simp (blast intro: kept_trans)
  next
    case False
    then have "stderrDataHandler chunk w = Returned () x"
      by (simp add: stderrDataHandler_def b_def [symmetric] x_def [symmetric] Let_def)
    then show ?thesis using bk xk by simp (blast intro: kept_trans)
  qed
qed

lemma fold_kill_kept:
  "child w \<noteq> None \<Longrightarrow> kept w (fold (\<lambda>(i, due, h). kill h SIGKILL) ts w)"
proof (induction ts arbitrary: w)
  case Nil
  then show ?case by (simp add: kept_def)
next
  case (Cons t ts)
  obtain i due h where t: "t = (i, due, h)" by (cases t)
  have a: "kept w (kill h SIGKILL w)" and c: "child (kill h SIGKILL w) \<noteq> None"
    using Cons.prems by (simp_all add: kept_def kill_def log_def)
  have "kept (kill h SIGKILL w) (fold (\<lambda>(i, due, h). kill h SIGKILL) ts (kill h SIGKILL w))"
    using c by (rule Cons.IH)
  with a show ?case by (simp add: t) (blast intro: kept_trans)
qed

lemma elapse_kept: "child w \<noteq> None \<Longrightarrow> kept w (elapse d w)"
proof -
  assume c: "child w \<noteq> None"
  define v where "v = w\<lparr>timers := filter (\<lambda>(i, due, h). \<not> due \<le> now w + d) (timers w),
                         now := now w + d\<rparr>"
  have "kept w v" and "child v \<noteq> None" using c by (simp_all add: v_def kept_def)
  moreover have "elapse d w
      = fold (\<lambda>(i, due, h). kill h SIGKILL)
          (filter (\<lambda>(i, due, h). due \<le> now w + d) (timers w)) v"
    by (simp add: elapse_def Let_def v_def)
  ultimately show ?thesis
    using fold_kill_kept [of v] by simp (blast intro: kept_trans)
qed

lemma deliver_kept:
  assumes "child w = Some h"
  shows "kept w (stateOf (deliver i w))"
proof (cases i)
  case (Message response)
  then show ?thesis using onMessage_kept [OF assms] by (simp add: deliver_def)
next
  case (Exit exitCode)
  then show ?thesis using onExit_kept [OF assms] by (simp add: deliver_def)
next
  case (Disconnect g)
  define v where "v = w\<lparr>children := (children w)[g := False]\<rparr>"
  have "kept w v" and vc: "child v = Some h" using assms by (simp_all add: v_def kept_def)
  moreover have "kept v (stateOf (onDisconnect v))" using vc by (rule onDisconnect_kept)
  ultimately show ?thesis
    using Disconnect by (simp add: deliver_def v_def [symmetric]) (blast intro: kept_trans)
next
  case (StderrData chunk)
  then show ?thesis using stderrDataHandler_kept [OF assms] by (simp add: deliver_def)
next
  case (Elapse d)
  then show ?thesis using elapse_kept [of w d] assms by (simp add: deliver_def)
qed

lemma send_installed:
  assumes "child w = Some h"
  shows "installed (stateOf (send req onStart onEnd onCustom w))"
  using assms by (simp add: send_def Let_def childSend_def log_def installed_def)

lemma forceExit_kept: "child w = Some h \<Longrightarrow> kept w (stateOf (forceExit w))"
  by (simp add: forceExit_def killChild_killing kept_def clearTimeout_def)

lemma getMemoryUsage_kept: "child w = Some h \<Longrightarrow> kept w (stateOf (getMemoryUsage w))"
  by (cases "memoryUsagePromise w")
    (simp_all add: getMemoryUsage_def Let_def kept_def log_def)

lemma checkMemoryUsage_kept: "child w = Some h \<Longrightarrow> kept w (stateOf (checkMemoryUsage w))"
  by (cases "truthyLimit (childIdleMemoryUsageLimit w)")
    (simp_all add: checkMemoryUsage_def childSend_def kept_def log_def)

lemma newWorker_installed: "installed (stateOf (newWorker opts mem globals))"
proof -
  define w0 where "w0 =
       \<lparr>state = STARTING, options = opts, child = None, request = None, retries = None,
        onProcessEnd = None, onCustomMessage = None, stdout = None, stderr = None,
        stderrBuffer = [], memoryUsagePromise = None, resolveMemoryUsage = None,
        childIdleMemoryUsage = None,
        childIdleMemoryUsageLimit =
          (if truthyLimit (idleMemoryLimit opts) then idleMemoryLimit opts else None),
        memoryUsageCheck = False, workerReadyPromise = False, resolveWorkerReady = False,
        exitResolved = False, exitThen = [], children = [], promises = [], timers = [],
        nextTimer = 0, now = 0, totalmem = mem, globalFunctions = globals, trace = []\<rparr>"
  have f: "\<not> terminal w0" "retries w0 = None" "request w0 = None" "onProcessEnd w0 = None"
    by (simp_all add: w0_def terminal_def)
  have "\<not> exceeds (increment (retries w0)) (maxRetries (options w0))"
    by (simp add: f exceeds_def increment_def)
  then have "initialize w0 = Returned () (ready (respawned w0))"
    using f(1) by (simp add: initialize_within)
  then show ?thesis
    by (simp add: newWorker_def w0_def [symmetric] installed_def f)
qed

text \<open>
  Every worker that can arise has a child handle, and while a request is pending the
  Retry Counter is a number and the completion callback is installed.
\<close>

lemma reachable_installed: "reachable w \<Longrightarrow> installed w"
proof (induction rule: reachable.induct)
  case (constructed opts mem globals)
  show ?case by (rule newWorker_installed)
next
  case (delivered w i)
  then obtain h where "child w = Some h" by (auto simp add: installed_def)
  then show ?case using delivered.IH by (blast intro: kept_installed deliver_kept)
next
  case (sent w req onStart onEnd onCustom)
  then obtain h where "child w = Some h" by (auto simp add: installed_def)
  then show ?case by (rule send_installed)
next
  case (initialized w)
  then have "child w \<noteq> None" by (simp add: installed_def)
  then show ?case using initialized.IH by (blast intro: kept_installed initialize_kept)
next
  case (killed w)
  then obtain h where h: "child w = Some h" by (auto simp add: installed_def)
  then have "kept w (stateOf (killChild w))" by (simp add: killChild_killing kept_def)
  then show ?case using killed.IH by (blast intro: kept_installed)
next
  case (forced w)
  then obtain h where "child w = Some h" by (auto simp add: installed_def)
  then show ?case using forced.IH by (blast intro: kept_installed forceExit_kept)
next
  case (asked w)
  then obtain h where "child w = Some h" by (auto simp add: installed_def)
  then show ?case using asked.IH by (blast intro: kept_installed getMemoryUsage_kept)
next
  case (checked w)
  then obtain h where "child w = Some h" by (auto simp add: installed_def)
  then show ?case using checked.IH by (blast intro: kept_installed checkMemoryUsage_kept)
next
  case (failed w p err)
  then have "kept w (memoryUsageSendFailed p err w)"
    by (simp add: memoryUsageSendFailed_def kept_def installed_def)
  then show ?case using failed.IH by (blast intro: kept_installed)
qed

lemma pending_request_installed:
  assumes "reachable w" "request w = Some R"
  shows "\<exists>h r cb. child w = Some h \<and> retries w = Some r \<and> onProcessEnd w = Some cb"
  using reachable_installed [OF assms(1)] assms(2) by (auto simp add: installed_def)

subsection \<open>Out-of-memory exits, case by case\<close>

lemma stderr_announcedOomWorker:
  "stderrDataHandler (Some ''heap out of memory'') busyWorker = Returned () announcedOomWorker"
  by (simp add: stderrDataHandler_def announcedOomWorker_def worker_defs
      detectOutOfMemoryCrash_def killChild_def shutdown_def SIGKILL_DELAY_def Let_def prim_defs)

text \<open>
  The out-of-memory crash as it happens to a busy worker: the error output announces it
  (state \<open>OutOfMemory\<close>, the child killed, the shutdown), and the exit that follows fails
  the pending request with the out-of-memory error and forks nothing.
\<close>

lemma out_of_memory_flow:
  "trace (stateOf (run [StderrData (Some ''heap out of memory''), Exit (Some 1)] busyWorker))
     = trace busyWorker
       @ [Kill 0 SIGTERM, Shutdown, Send 0 CHILD_MESSAGE_MEM_USAGE,
          CallOnProcessEnd 2 (Err outOfMemoryError) None None, Shutdown]
   \<and> request (stateOf (run [StderrData (Some ''heap out of memory''), Exit (Some 1)] busyWorker))
     = None"
proof -
  have "deliver (StderrData (Some ''heap out of memory'')) busyWorker
      = Returned () announcedOomWorker"
    by (simp add: deliver_def stderr_announcedOomWorker)
  then show ?thesis
    by (simp add: deliver_def)
      (simp add: announcedOomWorker_def worker_defs method_defs)
qed

text \<open>
  When the child that announced the crash exits with the code 0, the worker shuts down
  in the state \<open>OutOfMemory\<close>, but the pending request is not failed: it stays pending
  and no completion callback is called.
\<close>

lemma out_of_memory_exit_code_zero:
  "trace (stateOf (onExit (Some 0) announcedOomWorker)) = trace announcedOomWorker @ [Shutdown]
   \<and> request (stateOf (onExit (Some 0) announcedOomWorker)) = Some (CHILD_MESSAGE_CALL ''x'')
   \<and> state (stateOf (onExit (Some 0) announcedOomWorker)) = OUT_OF_MEMORY"
  by (simp add: announcedOomWorker_def worker_defs method_defs)

text \<open>
  Before the first \<open>send\<close> there is no \<open>this._onProcessEnd\<close>: the out-of-memory branch of
  the exit handler throws, and the shutdown that follows the call is not reached.
\<close>

lemma out_of_memory_exit_before_first_send:
  "onExit (Some 1) (idleWorker\<lparr>stderrBuffer := [''heap out of memory'']\<rparr>)
     = Threw (TypeError ''this._onProcessEnd is not a function'')
         (idleWorker\<lparr>stderrBuffer := [''heap out of memory''], state := OUT_OF_MEMORY\<rparr>)"
  by (simp add: idleWorker_def exampleOptions_def method_defs)

text \<open>
  A negative limit is resolved to its floor, and a usage of 0 does not trigger a restart
  although it is greater.
\<close>

lemma negative_limit_zero_usage:
  "resolveLimit 1000000000 (Some (- 1)) = Some (- 1)
   \<and> \<not> exceedsLimit (Some (- 1)) (Some 0)
   \<and> exceedsLimit (Some (- 1)) (Some 1)"
proof -
  have "\<lfloor>- 1 :: rat\<rfloor> = - 1"
    by (rule floor_unique) simp_all
  then show ?thesis
    by (simp add: resolveLimit_def exceedsLimit_def)
qed

subsection \<open>What a worker with no pending request sends\<close>

lemma callFree_refl: "callFree w w"
  by (simp add: callFree_def)

lemma callFree_trans: "callFree w w' \<Longrightarrow> callFree w' w'' \<Longrightarrow> callFree w w''"
  by (auto simp add: callFree_def)

lemma callFreeI: "trace w' = trace w @ es \<Longrightarrow> filter isCall es = [] \<Longrightarrow> callFree w w'"
  by (auto simp add: callFree_def)


lemma kept_idle: "kept w w' \<Longrightarrow> request w = None \<Longrightarrow> request w' = None \<and> child w' \<noteq> None"
  by (auto simp add: kept_def)

lemma callOnProcessEnd_callFree:
  assumes "request w = None" "child w = Some h"
  shows "callFree w (stateOf (callOnProcessEnd e r w))"
proof (cases "onProcessEnd w")
  case None
  then show ?thesis by (simp add: callOnProcessEnd_undefined callFree_refl)
next
  case (Some cb)
  have "trace (completed cb h e r w) = trace w @ [CallOnProcessEnd cb e r None]"
    using assms(1) by (simp add: checks_def)
  then show ?thesis
    by (simp add: callOnProcessEnd_completed [OF Some assms(2)] callFree_def)
qed

lemma performRestart_callFree:
  assumes "child w = Some h"
  shows "callFree w (stateOf (performRestartIfRequired w))"
proof (cases "memoryUsageCheck w")
  case False
  then show ?thesis by (simp add: performRestart_unchecked callFree_refl)
next
  case chk: True
  show ?thesis
  proof (cases "restarts w")
    case True
    with chk assms show ?thesis by (simp add: performRestart_exceeded callFree_def)
  next
    case False
    with chk show ?thesis by (simp add: performRestart_within callFree_def)
  qed
qed

lemma onMessage_callFree:
  assumes "request w = None" "child w = Some h"
  shows "callFree w (stateOf (onMessage response w))"
proof (cases response)
  case (PARENT_MESSAGE_OK result)
  then show ?thesis using callOnProcessEnd_callFree [OF assms] by (simp add: onMessage_def)
next
  case (PARENT_MESSAGE_CLIENT_ERROR name msg stack extra)
  then show ?thesis using callOnProcessEnd_callFree [OF assms] callFree_refl [of w]
    by (simp add: onMessage_def split: sum.splits)
next
  case (PARENT_MESSAGE_SETUP_ERROR name msg stack)
  then show ?thesis using callOnProcessEnd_callFree [OF assms] by (simp add: onMessage_def)
next
  case (PARENT_MESSAGE_CUSTOM payload)
  then show ?thesis
    by (cases "onCustomMessage w") (simp_all add: onMessage_def callFree_def log_def)
next
  case (PARENT_MESSAGE_MEM_USAGE u)
  have "callFree w (reported u w)" by (simp add: callFree_def)
  moreover have "callFree (reported u w) (stateOf (performRestartIfRequired (reported u w)))"
    by (rule performRestart_callFree [where h = h]) (simp add: assms)
  ultimately show ?thesis
    using PARENT_MESSAGE_MEM_USAGE by (simp add: onMessage_memUsage) (blast intro: callFree_trans)
next
  case (PARENT_MESSAGE_UNKNOWN t)
  then show ?thesis by (simp add: onMessage_def callFree_refl)
qed

lemma onExit_callFree:
  assumes "request w = None" "child w = Some h"
  shows "callFree w (stateOf (onExit exitCode w))"
proof -
  have "filter isCall (newEvents w (stateOf (onExit exitCode w))) = []"
    using assms by (rule idle_exit_sends_no_call)
  moreover have "kept w (stateOf (onExit exitCode w))"
    using assms(2) by (rule onExit_kept)
  moreover have "\<exists>es. trace (stateOf (onExit exitCode w)) = trace w @ es"
  proof -
    define x where "x = exiting w"
    have xt: "trace x = trace w" and xc: "child x = Some h"
      using assms by (simp_all add: x_def)
    consider
      (oom) "exitCode \<noteq> Some 0 \<and> state x = OUT_OF_MEMORY"
    | (restart) "\<not> (exitCode \<noteq> Some 0 \<and> state x = OUT_OF_MEMORY)"
        "(abnormal exitCode \<and> state x \<noteq> SHUTTING_DOWN) \<or> state x = RESTARTING"
    | (final) "\<not> (exitCode \<noteq> Some 0 \<and> state x = OUT_OF_MEMORY)"
        "\<not> ((abnormal exitCode \<and> state x \<noteq> SHUTTING_DOWN) \<or> state x = RESTARTING)"
      by blast
    then show ?thesis
    proof cases
      case oom
      then have step: "onExit exitCode w
          = andThen (callOnProcessEnd (Err outOfMemoryError) None x)
              (\<lambda>_ w2. Returned () (shutdown w2))"
        unfolding x_def by (rule onExit_outOfMemory)
      show ?thesis
      proof (cases "onProcessEnd x")
        case None
        then show ?thesis by (simp add: step callOnProcessEnd_undefined xt)
      next
        case (Some cb)
        then show ?thesis
          by (simp add: step callOnProcessEnd_completed [OF Some xc] shutdown_retired xt)
      qed
    next
      case restart
      define v where "v = x\<lparr>state := RESTARTING\<rparr>"
      have step: "onExit exitCode w = respawn v"
        using onExit_respawn [of exitCode w] restart by (simp add: x_def v_def respawn_def)
      have nt: "\<not> terminal v" by (simp add: terminal_def v_def)
      show ?thesis
        using respawn_fields(8) [OF nt] by (simp add: step v_def xt)
    next
      case final
      then have "onExit exitCode w = Returned () (shutdown x)"
        unfolding x_def by (rule onExit_shutdown)
      then show ?thesis by (simp add: shutdown_retired xt)
    qed
  qed
  ultimately show ?thesis
    by (auto simp add: callFree_def newEvents_def)
qed

lemma onDisconnect_callFree:
  assumes "child w = Some h"
  shows "callFree w (stateOf (onDisconnect w))"
proof -
  define x where "x = exiting w"
  have xt: "trace x = trace w" and xc: "child x = Some h"
    using assms by (simp_all add: x_def)
  show ?thesis
  proof (cases "state x = OUT_OF_MEMORY")
    case True
    then have "onDisconnect w = Returned () (retired (killing h x))"
      using xc by (simp add: onDisconnect_def x_def exiting_def Let_def killChild_killing
          shutdown_retired)
    then show ?thesis by (simp add: callFree_def xt)
  next
    case False
    then have "onDisconnect w = Returned () x"
      by (simp add: onDisconnect_def x_def exiting_def Let_def)
    then show ?thesis by (simp add: callFree_def xt)
  qed
qed

lemma detect_trace [simp]: "trace (detectOutOfMemoryCrash w) = trace w"
  by (cases "oomSignature w \<and> (state w = OK \<or> state w = STARTING)")
    (simp_all add: detect_eq)

lemma stderrDataHandler_callFree:
  assumes "child w = Some h"
  shows "callFree w (stateOf (stderrDataHandler chunk w))"
proof -
  define b where "b = (case chunk of None \<Rightarrow> w | Some c \<Rightarrow> w\<lparr>stderrBuffer := stderrBuffer w @ [c]\<rparr>)"
  define x where "x = detectOutOfMemoryCrash b"
  have bt: "trace b = trace w" and bc: "child b = Some h"
    using assms by (cases chunk; simp add: b_def)+
  have xt: "trace x = trace w" and xc: "child x = Some h"
    using bc bt by (simp_all add: x_def)
  define y where "y = x\<lparr>workerReadyPromise := False, resolveWorkerReady := False\<rparr>"
  have yt: "trace y = trace w" and yc: "child y = Some h"
    using xc xt by (simp_all add: y_def)
  show ?thesis
  proof (cases "state x = OUT_OF_MEMORY")
    case True
    then have "stderrDataHandler chunk w = Returned () (retired (killing h y))"
      using yc by (simp add: stderrDataHandler_def b_def [symmetric] x_def [symmetric] Let_def
          y_def [symmetric] killChild_killing shutdown_retired)
    then show ?thesis by (simp add: callFree_def yt)
  next
    case False
    then have "stderrDataHandler chunk w = Returned () x"
      by (simp add: stderrDataHandler_def b_def [symmetric] x_def [symmetric] Let_def)
    then show ?thesis by (simp add: callFree_def xt)
  qed
qed

lemma fold_kill_callFree:
  "callFree w (fold (\<lambda>(i, due, h). kill h SIGKILL) ts w)"
proof (induction ts arbitrary: w)
  case Nil
  show ?case by (simp add: callFree_refl)
next
  case (Cons t ts)
  obtain i due h where t: "t = (i, due, h)" by (cases t)
  have "callFree w (kill h SIGKILL w)"
    by (simp add: callFree_def kill_def log_def)
  moreover have "callFree (kill h SIGKILL w)
      (fold (\<lambda>(i, due, h). kill h SIGKILL) ts (kill h SIGKILL w))"
    by (rule Cons.IH)
  ultimately show ?case by (simp add: t) (blast intro: callFree_trans)
qed

lemma elapse_callFree: "callFree w (elapse d w)"
proof -
  define v where "v = w\<lparr>timers := filter (\<lambda>(i, due, h). \<not> due \<le> now w + d) (timers w),
                         now := now w + d\<rparr>"
  have "callFree w v" by (simp add: v_def callFree_def)
  moreover have "elapse d w
      = fold (\<lambda>(i, due, h). kill h SIGKILL)
          (filter (\<lambda>(i, due, h). due \<le> now w + d) (timers w)) v"
    by (simp add: elapse_def Let_def v_def)
  ultimately show ?thesis
    using fold_kill_callFree [of v] by simp (blast intro: callFree_trans)
qed

lemma deliver_callFree:
  assumes "request w = None" "child w = Some h"
  shows "callFree w (stateOf (deliver i w))"
proof (cases i)
  case (Message response)
  then show ?thesis using onMessage_callFree [OF assms] by (simp add: deliver_def)
next
  case (Exit exitCode)
  then show ?thesis using onExit_callFree [OF assms] by (simp add: deliver_def)
next
  case (Disconnect g)
  define v where "v = w\<lparr>children := (children w)[g := False]\<rparr>"
  have "callFree w v" and vc: "child v = Some h"
    using assms by (simp_all add: v_def callFree_def)
  moreover have "callFree v (stateOf (onDisconnect v))" using vc by (rule onDisconnect_callFree)
  ultimately show ?thesis
    using Disconnect by (simp add: deliver_def v_def [symmetric]) (blast intro: callFree_trans)
next
  case (StderrData chunk)
  then show ?thesis using stderrDataHandler_callFree [OF assms(2)] by (simp add: deliver_def)
next
  case (Elapse d)
  then show ?thesis using elapse_callFree [of w d] by (simp add: deliver_def)
qed

text \<open>
  A worker with no pending request sends no request to any child, whatever the runtime
  delivers to it, for as long as the caller does not call \<open>send\<close>.
\<close>

lemma idle_run_sends_no_call:
  assumes "request w = None" "child w = Some h"
  shows "callFree w (stateOf (run inputs w)) \<and> request (stateOf (run inputs w)) = None"
  using assms
proof (induction inputs arbitrary: w h)
  case Nil
  then show ?case by (simp add: callFree_refl)
next
  case (Cons i rest)
  define s where "s = stateOf (deliver i w)"
  have k: "kept w s" using Cons.prems(2) by (simp add: s_def deliver_kept)
  have c: "callFree w s" using Cons.prems by (simp add: s_def deliver_callFree)
  from kept_idle [OF k Cons.prems(1)] obtain g where sr: "request s = None" and sc: "child s = Some g"
    by auto
  show ?case
  proof (cases "deliver i w")
    case (Threw e x)
    then have "stateOf (run (i # rest) w) = s" by (simp add: s_def)
    then show ?thesis using c sr by simp
  next
    case (Returned u x)
    then have "run (i # rest) w = run rest s" by (simp add: s_def)
    moreover have "callFree s (stateOf (run rest s)) \<and> request (stateOf (run rest s)) = None"
      using sr sc by (rule Cons.IH)
    ultimately show ?thesis using c by (auto intro: callFree_trans)
  qed
qed


section \<open>The claims\<close>

subsection \<open>Crashes and retries\<close>

text \<open>
  C1 (amended). When the child exits abnormally (a code that is neither 0, nor null, nor
  one of the two signal codes) while a request \<open>R\<close> is pending, the state is not
  \<open>ShuttingDown\<close> and no out-of-memory crash is detected, the worker forks exactly one
  new child and counts one retry. While the counter does not exceed the maximum, \<open>R\<close>
  stays pending and is sent exactly once, to the new child. Once the counter exceeds the
  maximum, the completion callback is called once with the client error of type
  \<open>WorkerError\<close>, the pending request is cleared and \<open>R\<close> is not sent again.
\<close>

theorem crash_respawns_and_resends:
  assumes "abnormal exitCode" "state w \<noteq> SHUTTING_DOWN"
      and "state (detectOutOfMemoryCrash w) \<noteq> OUT_OF_MEMORY"
      and "request w = Some R" "retries w = Some r" "onProcessEnd w = Some cb"
  shows "\<exists>w'. onExit exitCode w = Returned () w'
      \<and> child w' = Some (length (children w))
      \<and> retries w' = Some (r + 1)
      \<and> (r + 1 \<le> maxRetries (options w) \<longrightarrow>
            request w' = Some R
          \<and> trace w' = trace w @ killOld w @ warnEvents w
              @ [Fork (length (children w)) (workerId (options w) + 1),
                 Send (length (children w)) (initMessage w),
                 Send (length (children w)) R])
      \<and> (maxRetries (options w) < r + 1 \<longrightarrow>
            request w' = None
          \<and> trace w' = trace w @ killOld w @ warnEvents w
              @ [Fork (length (children w)) (workerId (options w) + 1),
                 Send (length (children w)) (initMessage w)]
              @ (if truthyLimit (childIdleMemoryUsageLimit w)
                 then [Send (length (children w)) CHILD_MESSAGE_MEM_USAGE] else [])
              @ [CallOnProcessEnd cb (retryLimitError (Some (r + 1))) None None])"
proof -
  define v where "v = (w\<lparr>workerReadyPromise := False, resolveWorkerReady := False, state := RESTARTING\<rparr>)"
  have ex: "exiting w = w\<lparr>workerReadyPromise := False, resolveWorkerReady := False\<rparr>"
    using assms(3) by (rule exiting_unchanged)
  have st: "state (exiting w) = state w" by (simp add: ex)
  have noOom: "\<not> (exitCode \<noteq> Some 0 \<and> state (exiting w) = OUT_OF_MEMORY)"
    using state_unflagged [OF assms(3)] by (simp add: st)
  have restart: "(abnormal exitCode \<and> state (exiting w) \<noteq> SHUTTING_DOWN) \<or> state (exiting w) = RESTARTING"
    using assms(1,2) by (simp add: st)
  have step: "onExit exitCode w =
     andThen (initialize v)
       (\<lambda>_ w2. case request w2 of None \<Rightarrow> Returned () w2 | Some r \<Rightarrow> childSend r w2)"
    using onExit_respawn [OF noOom restart] by (simp add: ex v_def)
  have nt: "\<not> terminal v" by (simp add: terminal_def v_def)
  have vf: "retries v = Some r" "request v = Some R" "onProcessEnd v = Some cb"
    "children v = children w" "options v = options w" "trace v = trace w"
    "resolveWorkerReady v = False" "childIdleMemoryUsageLimit v = childIdleMemoryUsageLimit w"
    using assms(4-6) by (simp_all add: v_def)
  have ev: "killOld v = killOld w" "warnEvents v = warnEvents w" "initMessage v = initMessage w"
    by (simp_all add: v_def)
  have conn: "isConnected (length (children w)) (respawned v)"
    using isConnected_respawned [of v] by (simp add: vf)
  show ?thesis
  proof (cases "r + 1 \<le> maxRetries (options w)")
    case True
    then have "\<not> exceeds (increment (retries v)) (maxRetries (options v))"
      by (simp add: vf exceeds_def increment_def)
    then have "initialize v = Returned () (ready (respawned v))"
      using nt by (simp add: initialize_within)
    then have "onExit exitCode w =
        Returned () (log (Send (length (children w)) R) (ready (respawned v)))"
      by (simp add: step vf childSend_def)
    with True show ?thesis
      by (simp add: vf ev log_def increment_def)
  next
    case False
    then have "exceeds (increment (retries v)) (maxRetries (options v))"
      by (simp add: vf exceeds_def increment_def)
    then have "initialize v =
        Returned () (ready ((completed cb (length (children v))
           (retryLimitError (increment (retries v))) None (respawned v))\<lparr>request := None\<rparr>))"
      by (rule initialize_exceeded [OF nt _ vf(3)])
    then have "onExit exitCode w =
        Returned () (ready ((completed cb (length (children w))
           (retryLimitError (Some (r + 1))) None (respawned v))\<lparr>request := None\<rparr>))"
      by (simp add: step vf increment_def)
    with False show ?thesis
      by (simp add: vf ev conn checks_def increment_def)
  qed
qed

theorem crash_respawns_and_resends_witness:
  "abnormal (Some 1) \<and> state busyWorker \<noteq> SHUTTING_DOWN
   \<and> state (detectOutOfMemoryCrash busyWorker) \<noteq> OUT_OF_MEMORY
   \<and> request busyWorker = Some (CHILD_MESSAGE_CALL ''x'')
   \<and> retries busyWorker = Some 0 \<and> onProcessEnd busyWorker = Some 2
   \<and> (\<exists>w'. onExit (Some 1) busyWorker = Returned () w'
        \<and> child w' = Some 1 \<and> retries w' = Some 1
        \<and> request w' = Some (CHILD_MESSAGE_CALL ''x'')
        \<and> trace w' = trace busyWorker
             @ [Kill 0 SIGKILL, Fork 1 1,
                Send 1 (CHILD_MESSAGE_INITIALIZE False ''task.js'' []),
                Send 1 (CHILD_MESSAGE_CALL ''x'')])"
proof -
  have h: "abnormal (Some 1)" "state busyWorker \<noteq> SHUTTING_DOWN"
    "state (detectOutOfMemoryCrash busyWorker) \<noteq> OUT_OF_MEMORY"
    "request busyWorker = Some (CHILD_MESSAGE_CALL ''x'')"
    "retries busyWorker = Some 0" "onProcessEnd busyWorker = Some 2"
    by (simp_all add: worker_defs method_defs)
  show ?thesis
    using crash_respawns_and_resends [OF h] h
    by (simp add: worker_defs killOld_def warnEvents_def initMessage_def isSilent_def
        isConnected_def)
qed

theorem crash_respawns_and_resends_counterexample:
  "abnormal (Some 1)
   \<and> stderrDataHandler (Some ''heap out of memory'') busyWorker = Returned () announcedOomWorker
   \<and> request announcedOomWorker = Some (CHILD_MESSAGE_CALL ''x'')
   \<and> state announcedOomWorker = OUT_OF_MEMORY
   \<and> trace (stateOf (onExit (Some 1) announcedOomWorker))
       = trace announcedOomWorker
         @ [Send 0 CHILD_MESSAGE_MEM_USAGE,
            CallOnProcessEnd 2 (Err outOfMemoryError) None None, Shutdown]
   \<and> child (stateOf (onExit (Some 1) announcedOomWorker)) = child announcedOomWorker
   \<and> retries (stateOf (onExit (Some 1) announcedOomWorker)) = retries announcedOomWorker"
  by (simp add: stderr_announcedOomWorker)
    (simp add: announcedOomWorker_def worker_defs method_defs)

subsection \<open>The restart for memory\<close>

text \<open>
  C2 (amended). A usage report that exceeds the resolved limit while a check is requested
  starts exactly one kill-then-respawn cycle: the report sends \<open>SIGTERM\<close> to the child
  once, sets the state to \<open>Restarting\<close> and withdraws the check, and the exit that follows,
  whatever its code, forks exactly one new child. The \<open>initialize\<close> of that respawn
  counts a retry like any other: the Retry Counter is one more than before the cycle.
\<close>

theorem memory_restart_is_one_cycle_and_counts_a_retry:
  assumes "memoryUsageCheck w" "child w = Some h"
      and "exceedsLimit (resolveLimit (totalmem w) (childIdleMemoryUsageLimit w)) (Some u)"
  shows "\<exists>w1. onMessage (PARENT_MESSAGE_MEM_USAGE u) w = Returned () w1
     \<and> state w1 = RESTARTING \<and> \<not> memoryUsageCheck w1 \<and> retries w1 = retries w
     \<and> trace w1 = trace w @ [Kill h SIGTERM]
     \<and> (\<forall>exitCode.
           retries (stateOf (onExit exitCode w1)) = increment (retries w)
         \<and> child (stateOf (onExit exitCode w1)) = Some (length (children w))
         \<and> filter isFork (newEvents w1 (stateOf (onExit exitCode w1)))
             = [Fork (length (children w)) (workerId (options w) + 1)])"
proof -
  define w1 where "w1 = killing h ((reported u w)\<lparr>memoryUsageCheck := False, state := RESTARTING\<rparr>)"
  have chk: "memoryUsageCheck (reported u w)" and ch: "child (reported u w) = Some h"
    and rs: "restarts (reported u w)"
    using assms by (simp_all add: restarts_reported)
  have step: "onMessage (PARENT_MESSAGE_MEM_USAGE u) w = Returned () w1"
    using chk rs ch by (simp add: onMessage_memUsage performRestart_exceeded w1_def)
  have f1: "state w1 = RESTARTING" "\<not> memoryUsageCheck w1" "retries w1 = retries w"
    "trace w1 = trace w @ [Kill h SIGTERM]" "children w1 = children w" "options w1 = options w"
    by (simp_all add: w1_def)
  have cycle: "retries (stateOf (onExit exitCode w1)) = increment (retries w)
         \<and> child (stateOf (onExit exitCode w1)) = Some (length (children w))
         \<and> filter isFork (newEvents w1 (stateOf (onExit exitCode w1)))
             = [Fork (length (children w)) (workerId (options w) + 1)]" for exitCode
  proof -
    define v where "v = w1\<lparr>workerReadyPromise := False, resolveWorkerReady := False, state := RESTARTING\<rparr>"
    have ex: "onExit exitCode w1 = respawn v"
      using f1(1) by (simp add: onExit_restarting v_def)
    have nt: "\<not> terminal v" by (simp add: terminal_def v_def)
    have fv: "retries v = retries w" "children v = children w" "options v = options w"
      "trace v = trace w1"
      by (simp_all add: v_def f1)
    have tr: "trace (stateOf (respawn v)) = trace w1 @ (killOld v @ warnEvents v
             @ [Fork (length (children w)) (workerId (options w) + 1),
                Send (length (children w)) (initMessage v)]
             @ respawnTail v)"
      using respawn_fields(8) [OF nt] by (simp add: fv)
    show ?thesis
      using respawn_fields(1,2) [OF nt]
      by (simp add: ex fv newEvents_append [OF tr] isFork_killOld isFork_warnEvents
          isFork_respawnTail)
  qed
  show ?thesis
    using step f1(1-4) cycle by blast
qed

theorem memory_restart_is_one_cycle_and_counts_a_retry_witness:
  "memoryUsageCheck checkingWorker \<and> child checkingWorker = Some 0
   \<and> exceedsLimit
        (resolveLimit (totalmem checkingWorker) (childIdleMemoryUsageLimit checkingWorker))
        (Some 600000000)
   \<and> retries checkingWorker = Some 0
   \<and> (\<exists>w1. onMessage (PARENT_MESSAGE_MEM_USAGE 600000000) checkingWorker = Returned () w1
        \<and> state w1 = RESTARTING \<and> retries w1 = Some 0
        \<and> trace w1 = trace checkingWorker @ [Kill 0 SIGTERM]
        \<and> (\<forall>exitCode.
              retries (stateOf (onExit exitCode w1)) = Some 1
            \<and> child (stateOf (onExit exitCode w1)) = Some 1
            \<and> filter isFork (newEvents w1 (stateOf (onExit exitCode w1))) = [Fork 1 1]))"
proof -
  have h: "memoryUsageCheck checkingWorker" "child checkingWorker = Some 0"
    "exceedsLimit
        (resolveLimit (totalmem checkingWorker) (childIdleMemoryUsageLimit checkingWorker))
        (Some 600000000)"
    by (simp_all add: checkingWorker_def worker_defs resolveLimit_def exceedsLimit_def
        multiply_half)
  have f: "retries checkingWorker = Some 0" "children checkingWorker = [True]"
    "workerId (options checkingWorker) = 0"
    by (simp_all add: checkingWorker_def worker_defs)
  show ?thesis
    using memory_restart_is_one_cycle_and_counts_a_retry [OF h] h f
    by (simp add: increment_def, blast)
qed

theorem memory_restart_retry_counter_counterexample:
  "onMessage (PARENT_MESSAGE_MEM_USAGE 600000000) checkingWorker = Returned () restartingWorker
   \<and> retries restartingWorker = Some 0
   \<and> retries (stateOf (onExit None restartingWorker)) = Some 1"
  by (simp add: report_restartingWorker)
    (simp add: restartingWorker_def checkingWorker_def worker_defs method_defs)

subsection \<open>The out-of-memory exit\<close>

text \<open>
  C3 (amended). When the buffered error output contains an out-of-memory signature at the
  time the exit handler runs, the state is \<open>Ok\<close>, \<open>Starting\<close> or already \<open>OutOfMemory\<close>,
  the exit code is not 0 and a completion callback is installed, the detection puts the
  worker in the state \<open>OutOfMemory\<close>, the completion callback is called with the
  out-of-memory error with the pending request cleared, the final shutdown is performed,
  no child is forked, and \<open>initialize\<close> does nothing in the state that results.
\<close>

theorem out_of_memory_exit_retires_worker:
  assumes "includesStr (concat (stderrBuffer w)) ''heap out of memory''
           \<or> includesStr (concat (stderrBuffer w)) ''allocation failure;''
           \<or> includesStr (concat (stderrBuffer w)) ''Last few GCs''"
      and "state w = OK \<or> state w = STARTING \<or> state w = OUT_OF_MEMORY"
      and "exitCode \<noteq> Some 0" "onProcessEnd w = Some cb" "child w = Some h"
  shows "state (detectOutOfMemoryCrash w) = OUT_OF_MEMORY
     \<and> (\<exists>w'. onExit exitCode w = Returned () w'
          \<and> request w' = None
          \<and> trace w' = trace w
               @ (if truthyLimit (childIdleMemoryUsageLimit w) \<and> isConnected h w
                     \<and> request w \<noteq> None
                  then [Send h CHILD_MESSAGE_MEM_USAGE] else [])
               @ [CallOnProcessEnd cb (Err outOfMemoryError) None None, Shutdown]
          \<and> child w' = child w \<and> children w' = children w
          \<and> initialize w' = Returned () w')"
proof -
  have sig: "oomSignature w" using assms(1) by (simp add: oomSignature_def)
  have d: "state (detectOutOfMemoryCrash w) = OUT_OF_MEMORY"
    using sig assms(2) by (auto simp add: detect_eq)
  define v where "v = w\<lparr>workerReadyPromise := False, resolveWorkerReady := False, state := OUT_OF_MEMORY\<rparr>"
  have ex: "exiting w = v"
  proof (cases "state w = OUT_OF_MEMORY")
    case True
    then have "exiting w = w\<lparr>workerReadyPromise := False, resolveWorkerReady := False\<rparr>"
      by (simp add: exiting_def detect_eq)
    also have "\<dots> = v"
      using True by (simp add: v_def)
    finally show ?thesis .
  next
    case False
    with assms(2) have "state w = OK \<or> state w = STARTING" by simp
    with sig show ?thesis by (auto simp add: exiting_def detect_eq v_def)
  qed
  have fv: "onProcessEnd v = Some cb" "child v = Some h" "trace v = trace w"
    "children v = children w" "request v = request w"
    "childIdleMemoryUsageLimit v = childIdleMemoryUsageLimit w"
    "isConnected h v = isConnected h w"
    using assms(4,5) by (simp_all add: v_def isConnected_def)
  have oom: "exitCode \<noteq> Some 0 \<and> state (exiting w) = OUT_OF_MEMORY"
    using assms(3) by (simp add: ex v_def)
  have step: "onExit exitCode w
      = Returned () (retired (completed cb h (Err outOfMemoryError) None v))"
    using onExit_outOfMemory [OF oom]
    by (simp add: ex callOnProcessEnd_completed [OF fv(1,2)] shutdown_retired)
  have "terminal (retired (completed cb h (Err outOfMemoryError) None v))"
    by (simp add: terminal_def v_def)
  then have noop: "initialize (retired (completed cb h (Err outOfMemoryError) None v))
               = Returned () (retired (completed cb h (Err outOfMemoryError) None v))"
    by (rule initialize_terminal)
  show ?thesis
    using d step noop assms(5) by (simp add: fv checks_def)
qed

theorem out_of_memory_exit_retires_worker_witness:
  "includesStr (concat (stderrBuffer announcedOomWorker)) ''heap out of memory''
   \<and> state announcedOomWorker = OUT_OF_MEMORY \<and> Some (1 :: int) \<noteq> Some 0
   \<and> onProcessEnd announcedOomWorker = Some 2 \<and> child announcedOomWorker = Some 0
   \<and> state (detectOutOfMemoryCrash announcedOomWorker) = OUT_OF_MEMORY
   \<and> (\<exists>w'. onExit (Some 1) announcedOomWorker = Returned () w'
        \<and> request w' = None
        \<and> trace w' = trace announcedOomWorker
             @ [Send 0 CHILD_MESSAGE_MEM_USAGE,
                CallOnProcessEnd 2 (Err outOfMemoryError) None None, Shutdown]
        \<and> initialize w' = Returned () w')"
proof -
  have s: "includesStr (concat (stderrBuffer announcedOomWorker)) ''heap out of memory''"
    by (simp add: announcedOomWorker_def worker_defs)
  have h: "includesStr (concat (stderrBuffer announcedOomWorker)) ''heap out of memory''
           \<or> includesStr (concat (stderrBuffer announcedOomWorker)) ''allocation failure;''
           \<or> includesStr (concat (stderrBuffer announcedOomWorker)) ''Last few GCs''"
    "state announcedOomWorker = OK \<or> state announcedOomWorker = STARTING
       \<or> state announcedOomWorker = OUT_OF_MEMORY"
    "Some (1 :: int) \<noteq> Some 0" "onProcessEnd announcedOomWorker = Some 2"
    "child announcedOomWorker = Some 0"
    using s by (simp_all add: announcedOomWorker_def worker_defs)
  have f: "state announcedOomWorker = OUT_OF_MEMORY"
    "truthyLimit (childIdleMemoryUsageLimit announcedOomWorker)"
    "isConnected 0 announcedOomWorker" "request announcedOomWorker \<noteq> None"
    by (simp_all add: announcedOomWorker_def worker_defs truthyLimit_def isConnected_def)
  show ?thesis
    using out_of_memory_exit_retires_worker [OF h] s h(4,5) f
    by (simp, blast)
qed

theorem out_of_memory_exit_counterexample:
  "stderrDataHandler (Some ''heap out of memory'') restartingWorker
     = Returned () restartingOomWorker
   \<and> stderrBuffer restartingOomWorker = [''heap out of memory'']
   \<and> includesStr (concat (stderrBuffer restartingOomWorker)) ''heap out of memory''
   \<and> state restartingOomWorker = RESTARTING
   \<and> state (detectOutOfMemoryCrash restartingOomWorker) = RESTARTING
   \<and> trace (stateOf (onExit (Some 1) restartingOomWorker))
       = trace restartingOomWorker
         @ [Kill 0 SIGKILL, Fork 1 1, Send 1 (CHILD_MESSAGE_INITIALIZE False ''task.js'' [])]
   \<and> child (stateOf (onExit (Some 1) restartingOomWorker)) = Some 1
   \<and> state (stateOf (onExit (Some 1) restartingOomWorker)) = OK"
  by (simp add: stderr_restartingOomWorker)
    (simp add: restartingOomWorker_def restartingWorker_def checkingWorker_def worker_defs
      method_defs)

subsection \<open>The idle-memory limit\<close>

text \<open>
  C4 (amended). While a check is requested and a limit \<open>L\<close> is configured (\<open>L\<close> and the
  total memory being doubles), the resolved limit is the floor of the product
  \<open>totalmem * L\<close>, as doubles multiply, when \<open>0 < L \<le> 1\<close>, and \<open>floor L\<close> otherwise, and a
  usage report \<open>U\<close> triggers a restart
  (state \<open>Restarting\<close>, \<open>SIGTERM\<close> to the child, the forceful signal scheduled) if and
  only if the resolved limit is not zero, \<open>U\<close> is not zero and \<open>U\<close> is strictly greater
  than the resolved limit; otherwise the report changes neither the state, nor the trace,
  nor the timers.
\<close>

theorem restart_iff_usage_exceeds_resolved_limit:
  assumes "memoryUsageCheck w" "childIdleMemoryUsageLimit w = Some L" "L \<noteq> 0"
      and "child w = Some h"
      and "isDouble L" "isDouble (of_nat (totalmem w))"
  shows "resolveLimit (totalmem w) (childIdleMemoryUsageLimit w)
           = Some (if 0 < L \<and> L \<le> 1 then \<lfloor>multiply (of_nat (totalmem w)) L\<rfloor> else \<lfloor>L\<rfloor>)
     \<and> (\<exists>w'. onMessage (PARENT_MESSAGE_MEM_USAGE U) w = Returned () w'
          \<and> (if (if 0 < L \<and> L \<le> 1 then \<lfloor>multiply (of_nat (totalmem w)) L\<rfloor> else \<lfloor>L\<rfloor>) \<noteq> 0
                 \<and> U \<noteq> 0
                 \<and> (if 0 < L \<and> L \<le> 1 then \<lfloor>multiply (of_nat (totalmem w)) L\<rfloor> else \<lfloor>L\<rfloor>)
                     < int U
              then state w' = RESTARTING
                 \<and> trace w' = trace w @ [Kill h SIGTERM]
                 \<and> timers w' = timers w @ [(nextTimer w, now w + SIGKILL_DELAY, h)]
              else state w' = state w \<and> trace w' = trace w \<and> timers w' = timers w))"
proof -
  define limit where
    "limit = (if 0 < L \<and> L \<le> 1 then \<lfloor>multiply (of_nat (totalmem w)) L\<rfloor> else \<lfloor>L\<rfloor>)"
  have rl: "resolveLimit (totalmem w) (childIdleMemoryUsageLimit w) = Some limit"
    using assms(2,3) by (simp add: resolveLimit_Some limit_def)
  have chk: "memoryUsageCheck (reported U w)" and ch: "child (reported U w) = Some h"
    using assms(1,4) by simp_all
  have rs: "restarts (reported U w) = (limit \<noteq> 0 \<and> U \<noteq> 0 \<and> limit < int U)"
    by (simp add: restarts_reported rl exceedsLimit_def)
  show ?thesis
  proof (cases "limit \<noteq> 0 \<and> U \<noteq> 0 \<and> limit < int U")
    case True
    with rs have "restarts (reported U w)" by blast
    then have "onMessage (PARENT_MESSAGE_MEM_USAGE U) w
        = Returned () (killing h ((reported U w)\<lparr>memoryUsageCheck := False, state := RESTARTING\<rparr>))"
      using chk ch by (simp add: onMessage_memUsage performRestart_exceeded)
    with True rl show ?thesis by (simp add: limit_def [symmetric])
  next
    case False
    with rs have "\<not> restarts (reported U w)" by blast
    then have "onMessage (PARENT_MESSAGE_MEM_USAGE U) w
        = Returned () ((reported U w)\<lparr>memoryUsageCheck := False\<rparr>)"
      using chk by (simp add: onMessage_memUsage performRestart_within)
    with False rl show ?thesis by (simp add: limit_def [symmetric])
  qed
qed

theorem restart_iff_usage_exceeds_resolved_limit_witness:
  "memoryUsageCheck checkingWorker
   \<and> childIdleMemoryUsageLimit checkingWorker = Some (1 / 2) \<and> (1 / 2 :: rat) \<noteq> 0
   \<and> child checkingWorker = Some 0 \<and> totalmem checkingWorker = 1000000000
   \<and> isDouble (1 / 2) \<and> isDouble (of_nat (totalmem checkingWorker))
   \<and> resolveLimit (totalmem checkingWorker) (childIdleMemoryUsageLimit checkingWorker)
       = Some 500000000
   \<and> (\<exists>w'. onMessage (PARENT_MESSAGE_MEM_USAGE 600000000) checkingWorker = Returned () w'
        \<and> state w' = RESTARTING \<and> trace w' = trace checkingWorker @ [Kill 0 SIGTERM])
   \<and> (\<exists>w'. onMessage (PARENT_MESSAGE_MEM_USAGE 400000000) checkingWorker = Returned () w'
        \<and> state w' = OK \<and> trace w' = trace checkingWorker)"
proof -
  have h: "memoryUsageCheck checkingWorker"
    "childIdleMemoryUsageLimit checkingWorker = Some (1 / 2)" "(1 / 2 :: rat) \<noteq> 0"
    "child checkingWorker = Some 0"
    by (simp_all add: checkingWorker_def worker_defs)
  have t: "totalmem checkingWorker = 1000000000" "state checkingWorker = OK"
    by (simp_all add: checkingWorker_def worker_defs)
  have d: "isDouble (1 / 2)" "isDouble (of_nat (totalmem checkingWorker))"
    by (simp_all add: t number_defs)
  show ?thesis
    using restart_iff_usage_exceeds_resolved_limit [OF h d, of 600000000]
      restart_iff_usage_exceeds_resolved_limit [OF h d, of 400000000] h t d
    by (auto simp add: multiply_half)
qed

theorem restart_iff_usage_exceeds_limit_counterexample:
  "memoryUsageCheck tinyLimitWorker
   \<and> childIdleMemoryUsageLimit tinyLimitWorker = Some (1 / 2147483648)
   \<and> totalmem tinyLimitWorker = 1000000000
   \<and> isDouble (1 / 2147483648) \<and> isDouble 1000000000
   \<and> resolveLimit (totalmem tinyLimitWorker) (childIdleMemoryUsageLimit tinyLimitWorker) = Some 0
   \<and> (0 :: int) < int 600000000
   \<and> onMessage (PARENT_MESSAGE_MEM_USAGE 600000000) tinyLimitWorker
       = Returned () (tinyLimitWorker\<lparr>childIdleMemoryUsage := Some 600000000,
                                      memoryUsageCheck := False\<rparr>)
   \<and> state tinyLimitWorker = OK"
  by (simp add: tinyLimitWorker_def checkingWorker_def worker_defs method_defs
      performRestartIfRequired_def resolveLimit_def exceedsLimit_def number_defs)

subsection \<open>Completion\<close>




subsection \<open>Graceful, then forceful\<close>

text \<open>
  C6 (amended). \<open>killChild\<close> sends \<open>SIGTERM\<close> to the current child at once and schedules
  \<open>SIGKILL\<close> for that handle 500 units later. With no other timer pending, nothing is
  sent before the delay has passed, and once it has passed \<open>SIGKILL\<close> is sent exactly
  once, however much more time passes. \<open>killChild\<close> itself never cancels the timer. It
  is \<open>forceExit\<close> that does: when the child exits before the delay has passed, the
  final shutdown resolves the exit promise, the timer is cleared and \<open>SIGKILL\<close> is never
  sent.
\<close>

theorem killChild_escalates_after_delay:
  assumes "child w = Some h" "timers w = []"
  shows "killChild w = Returned (nextTimer w) (killing h w)
     \<and> trace (killing h w) = trace w @ [Kill h SIGTERM]
     \<and> timers (killing h w) = [(nextTimer w, now w + 500, h)]
     \<and> (\<forall>d < 500. trace (elapse d (killing h w)) = trace w @ [Kill h SIGTERM])
     \<and> (\<forall>d d'. 500 \<le> d \<longrightarrow>
           trace (elapse d (killing h w)) = trace w @ [Kill h SIGTERM, Kill h SIGKILL]
         \<and> trace (elapse d' (elapse d (killing h w)))
             = trace w @ [Kill h SIGTERM, Kill h SIGKILL])
     \<and> (\<not> exitResolved w \<longrightarrow>
          (\<exists>w2. forceExit w = Returned () w2
             \<and> state w2 = SHUTTING_DOWN
             \<and> trace w2 = trace w @ [Kill h SIGTERM]
             \<and> timers w2 = [(nextTimer w, now w + 500, h)]
             \<and> (\<forall>exitCode d0 d. d0 < 500 \<longrightarrow>
                   (\<exists>w3. onExit exitCode (elapse d0 w2) = Returned () w3
                      \<and> timers w3 = []
                      \<and> trace (elapse d w3) = trace w @ [Kill h SIGTERM, Shutdown]))))"
proof -
  define k where "k = killing h w"
  have kt: "timers k = [(nextTimer w, now w + 500, h)]" "now k = now w"
    "trace k = trace w @ [Kill h SIGTERM]"
    using assms(2) by (simp_all add: k_def SIGKILL_DELAY_def)
  have early: "trace (elapse d k) = trace w @ [Kill h SIGTERM]" if "d < 500" for d
    using that by (simp add: elapse_early [OF kt(1)] kt)
  have late: "trace (elapse d k) = trace w @ [Kill h SIGTERM, Kill h SIGKILL]
         \<and> trace (elapse d' (elapse d k)) = trace w @ [Kill h SIGTERM, Kill h SIGKILL]"
    if "500 \<le> d" for d d'
  proof -
    have e: "elapse d k = k\<lparr>timers := [], now := now k + d, trace := trace k @ [Kill h SIGKILL]\<rparr>"
      using that by (simp add: elapse_due [OF kt(1)] kt)
    have "timers (elapse d k) = []" by (simp add: e)
    then have "elapse d' (elapse d k) = (elapse d k)\<lparr>timers := [], now := now (elapse d k) + d'\<rparr>"
      by (rule elapse_idle)
    then show ?thesis by (simp add: e kt)
  qed
  have force: "\<exists>w2. forceExit w = Returned () w2
             \<and> state w2 = SHUTTING_DOWN
             \<and> trace w2 = trace w @ [Kill h SIGTERM]
             \<and> timers w2 = [(nextTimer w, now w + 500, h)]
             \<and> (\<forall>exitCode d0 d. d0 < 500 \<longrightarrow>
                   (\<exists>w3. onExit exitCode (elapse d0 w2) = Returned () w3
                      \<and> timers w3 = []
                      \<and> trace (elapse d w3) = trace w @ [Kill h SIGTERM, Shutdown]))"
    if pending: "\<not> exitResolved w"
  proof -
    define w2 where "w2 = (killing h (w\<lparr>state := SHUTTING_DOWN\<rparr>))\<lparr>exitThen := exitThen w @ [nextTimer w]\<rparr>"
    have f: "forceExit w = Returned () w2"
      using assms(1) pending by (simp add: forceExit_killing w2_def)
    have w2f: "state w2 = SHUTTING_DOWN" "trace w2 = trace w @ [Kill h SIGTERM]"
      "timers w2 = [(nextTimer w, now w + 500, h)]" "now w2 = now w"
      "exitThen w2 = exitThen w @ [nextTimer w]"
      using assms(2) by (simp_all add: w2_def SIGKILL_DELAY_def)
    have after: "\<exists>w3. onExit exitCode (elapse d0 w2) = Returned () w3
                      \<and> timers w3 = []
                      \<and> trace (elapse d w3) = trace w @ [Kill h SIGTERM, Shutdown]"
      if "d0 < 500" for exitCode d0 d
    proof -
      define e where "e = elapse d0 w2"
      have ee: "e = w2\<lparr>timers := [(nextTimer w, now w + 500, h)], now := now w2 + d0\<rparr>"
        using that by (simp add: e_def elapse_early [OF w2f(3)] w2f)
      have ef: "state e = SHUTTING_DOWN" by (simp add: ee w2f)
      define w3 where "w3 = retired (e\<lparr>workerReadyPromise := False, resolveWorkerReady := False\<rparr>)"
      have x: "onExit exitCode e = Returned () w3"
        using ef by (simp add: onExit_shuttingDown w3_def)
      have t3: "timers w3 = []" "trace w3 = trace w @ [Kill h SIGTERM, Shutdown]"
        by (simp_all add: w3_def ee w2f)
      have "elapse d w3 = w3\<lparr>timers := [], now := now w3 + d\<rparr>"
        using t3(1) by (rule elapse_idle)
      then have "trace (elapse d w3) = trace w @ [Kill h SIGTERM, Shutdown]"
        by (simp add: t3)
      with x t3(1) show ?thesis by (simp add: e_def)
    qed
    show ?thesis
      using f w2f(1-3) after by blast
  qed
  have kc: "killChild w = Returned (nextTimer w) (killing h w)"
    using assms(1) by (rule killChild_killing)
  show ?thesis
    using kc kt(1,3) early late force unfolding k_def by blast
qed

theorem killChild_escalates_after_delay_witness:
  "child idleWorker = Some 0 \<and> timers idleWorker = [] \<and> \<not> exitResolved idleWorker
   \<and> killChild idleWorker = Returned 0 (killing 0 idleWorker)
   \<and> trace (elapse 499 (killing 0 idleWorker)) = trace idleWorker @ [Kill 0 SIGTERM]
   \<and> trace (elapse 500 (killing 0 idleWorker))
       = trace idleWorker @ [Kill 0 SIGTERM, Kill 0 SIGKILL]
   \<and> (\<exists>w2. forceExit idleWorker = Returned () w2
        \<and> (\<exists>w3. onExit None (elapse 100 w2) = Returned () w3
             \<and> trace (elapse 400 w3) = trace idleWorker @ [Kill 0 SIGTERM, Shutdown]))"
proof -
  have h: "child idleWorker = Some 0" "timers idleWorker = []"
    by (simp_all add: idleWorker_def)
  have f: "\<not> exitResolved idleWorker" "nextTimer idleWorker = 0"
    by (simp_all add: idleWorker_def)
  have a: "(499 :: nat) < 500" "(500 :: nat) \<le> 500" "(100 :: nat) < 500"
    by simp_all
  show ?thesis
    using killChild_escalates_after_delay [OF h] h f a
    by (simp, blast)
qed

theorem killChild_forceful_signal_counterexample:
  "onMessage (PARENT_MESSAGE_MEM_USAGE 600000000) checkingWorker = Returned () restartingWorker
   \<and> trace restartingWorker = trace checkingWorker @ [Kill 0 SIGTERM]
   \<and> timers restartingWorker = [(0, 500, 0)]
   \<and> trace (stateOf (run [Elapse 100, Disconnect 0, Exit None, Elapse 400] restartingWorker))
       = trace restartingWorker
         @ [Fork 1 1, Send 1 (CHILD_MESSAGE_INITIALIZE False ''task.js'' []), Kill 0 SIGKILL]"
  by (simp add: report_restartingWorker)
    (simp add: deliver_def elapse_def onDisconnect_def restartingWorker_def checkingWorker_def
      worker_defs method_defs)

subsection \<open>Memory usage reports\<close>



subsection \<open>Terminal states\<close>

text \<open>
  C8. \<open>initialize\<close> does nothing when the state is \<open>OutOfMemory\<close>, \<open>ShuttingDown\<close> or
  \<open>ShutDown\<close>: it returns with the worker exactly as it was, so no child is spawned (the
  trace is the same), the state is the same, and no field has changed.
\<close>

theorem initialize_noop_when_terminal:
  "state w = OUT_OF_MEMORY \<or> state w = SHUTTING_DOWN \<or> state w = SHUT_DOWN
     \<Longrightarrow> initialize w = Returned () w"
  by (simp add: initialize_def)

theorem initialize_noop_when_terminal_witness:
  "state (busyWorker\<lparr>state := SHUTTING_DOWN\<rparr>) = SHUTTING_DOWN
   \<and> initialize (busyWorker\<lparr>state := SHUTTING_DOWN\<rparr>)
       = Returned () (busyWorker\<lparr>state := SHUTTING_DOWN\<rparr>)"
  using initialize_noop_when_terminal [of "busyWorker\<lparr>state := SHUTTING_DOWN\<rparr>"]
  by simp

subsection \<open>Unrecognized messages\<close>




subsection \<open>The handle that the timer kills\<close>

text \<open>
  C10. The forceful signal that \<open>killChild\<close> schedules is bound to the handle that was
  current when \<open>killChild\<close> was called: when \<open>initialize\<close> forks a new child before the
  500 units have passed, the new child has another handle, and the only thing the timer
  does, once the delay has passed, is to send \<open>SIGKILL\<close> to the old handle.
\<close>

theorem delayed_kill_bound_to_old_child:
  assumes "child w = Some h" "h < length (children w)" "timers w = []"
      and "state w \<noteq> OUT_OF_MEMORY" "state w \<noteq> SHUTTING_DOWN" "state w \<noteq> SHUT_DOWN"
  shows "killChild w = Returned (nextTimer w) (killing h w)
     \<and> (\<forall>d0 d. d0 < 500 \<longrightarrow>
          child (stateOf (initialize (elapse d0 (killing h w)))) = Some (length (children w))
        \<and> length (children w) \<noteq> h
        \<and> trace (elapse d (stateOf (initialize (elapse d0 (killing h w)))))
            = trace (stateOf (initialize (elapse d0 (killing h w))))
              @ (if 500 \<le> d0 + d then [Kill h SIGKILL] else []))"
proof -
  define k where "k = killing h w"
  have kt: "timers k = [(nextTimer w, now w + 500, h)]" "now k = now w"
    using assms(3) by (simp_all add: k_def SIGKILL_DELAY_def)
  have respawn: "child (stateOf (initialize (elapse d0 k))) = Some (length (children w))
        \<and> length (children w) \<noteq> h
        \<and> trace (elapse d (stateOf (initialize (elapse d0 k))))
            = trace (stateOf (initialize (elapse d0 k)))
              @ (if 500 \<le> d0 + d then [Kill h SIGKILL] else [])"
    if "d0 < 500" for d0 d
  proof -
    define e where "e = elapse d0 k"
    have ee: "e = k\<lparr>timers := [(nextTimer w, now w + 500, h)], now := now k + d0\<rparr>"
      using that by (simp add: e_def elapse_early [OF kt(1)] kt)
    have nt: "\<not> terminal e"
      using assms(4-6) by (simp add: terminal_def ee k_def)
    define s where "s = stateOf (initialize e)"
    have sf: "child s = Some (length (children w))"
      "timers s = [(nextTimer w, now w + 500, h)]" "now s = now w + d0"
      using initialize_frame [OF nt] by (simp_all add: s_def ee kt k_def)
    have "trace (elapse d s) = trace s @ (if 500 \<le> d0 + d then [Kill h SIGKILL] else [])"
    proof (cases "500 \<le> d0 + d")
      case True
      then have "now w + 500 \<le> now s + d" by (simp add: sf)
      then show ?thesis using True by (simp add: elapse_due [OF sf(2)])
    next
      case False
      then have "now s + d < now w + 500" by (simp add: sf)
      then show ?thesis using False by (simp add: elapse_early [OF sf(2)])
    qed
    with sf(1) assms(2) show ?thesis by (simp add: s_def e_def)
  qed
  have kc: "killChild w = Returned (nextTimer w) (killing h w)"
    using assms(1) by (rule killChild_killing)
  show ?thesis
    using kc respawn unfolding k_def by blast
qed

theorem delayed_kill_bound_to_old_child_witness:
  "child idleWorker = Some 0 \<and> (0 :: nat) < length (children idleWorker)
   \<and> timers idleWorker = [] \<and> state idleWorker = OK
   \<and> killChild idleWorker = Returned 0 (killing 0 idleWorker)
   \<and> child (stateOf (initialize (elapse 100 (killing 0 idleWorker)))) = Some 1
   \<and> trace (elapse 400 (stateOf (initialize (elapse 100 (killing 0 idleWorker)))))
       = trace (stateOf (initialize (elapse 100 (killing 0 idleWorker)))) @ [Kill 0 SIGKILL]"
proof -
  have h: "child idleWorker = Some 0" "0 < length (children idleWorker)"
    "timers idleWorker = []" "state idleWorker \<noteq> OUT_OF_MEMORY"
    "state idleWorker \<noteq> SHUTTING_DOWN" "state idleWorker \<noteq> SHUT_DOWN"
    by (simp_all add: idleWorker_def)
  have f: "state idleWorker = OK" "nextTimer idleWorker = 0" "length (children idleWorker) = 1"
    by (simp_all add: idleWorker_def)
  have a: "(100 :: nat) < 500" by simp
  from delayed_kill_bound_to_old_child [OF h]
  have k: "killChild idleWorker = Returned (nextTimer idleWorker) (killing 0 idleWorker)"
    and r: "\<And>d0 d. d0 < 500 \<Longrightarrow>
          child (stateOf (initialize (elapse d0 (killing 0 idleWorker))))
            = Some (length (children idleWorker))
        \<and> trace (elapse d (stateOf (initialize (elapse d0 (killing 0 idleWorker)))))
            = trace (stateOf (initialize (elapse d0 (killing 0 idleWorker))))
              @ (if 500 \<le> d0 + d then [Kill 0 SIGKILL] else [])"
    by blast+
  show ?thesis
    using k r [OF a, of 400] h(1,3) f by simp
qed

end
